theory Spec2Isabelle
  imports Complex_Main "HOL-Library.Multiset"
begin

section \<open>Replies, requests and the page state\<close>

text \<open>
  Every asynchronous method of the console has the shape
  \<^verbatim>\<open>try { r = await fetch(..); result = await r.json(); if (result.success) A else B } catch (e) { C }\<close>.
  The outcome of the awaited part is a \<open>reply\<close>: the envelope with \<open>success\<close> true and
  its payload, the envelope with \<open>success\<close> false and its \<open>error\<close> text, or a rejected
  \<open>fetch\<close>/\<open>json\<close> with the exception's \<open>message\<close>.
\<close>

datatype 'a reply = Success 'a | Failure string | TransportError string

text \<open>The JSON bodies \<open>startKeywordSearch\<close> and \<open>startJournalScrape\<close> build for \<open>startTask\<close>.\<close>

datatype task_data =
    KeywordScrape "string list" "int option" string
      \<comment> \<open>keywords, result_count, literature_type\<close>
  | JournalScrape string "int option" "int option"
      \<comment> \<open>journal_file, start_year, end_year\<close>

text \<open>The requests the modelled methods issue with \<open>fetch\<close>.\<close>

datatype request =
    GetArticles int nat string string string
      \<comment> \<open>GET /api/articles?page, per_page, search, keyword, literature_type\<close>
  | PostArticlesDownload "int list" "int option"
      \<comment> \<open>POST /api/articles/download with body article_ids, max_workers\<close>
  | GetLiteratureStats
      \<comment> \<open>GET /api/literature/stats\<close>
  | GetTasks
      \<comment> \<open>GET /api/tasks\<close>
  | GetDownloadTasks
      \<comment> \<open>GET /api/download/tasks\<close>
  | PostTaskAction int string
      \<comment> \<open>POST /api/tasks/<id>/<action>, action one of pause, resume, stop\<close>
  | GetTask int
      \<comment> \<open>GET /api/tasks/<id>\<close>
  | GetDownloadTask int
      \<comment> \<open>GET /api/download/task/<id>\<close>
  | PostDownloadStart "int option"
      \<comment> \<open>POST /api/download/start with body max_workers\<close>
  | PostDownloadStop
      \<comment> \<open>POST /api/download/stop\<close>
  | GetLiteratureTypes
      \<comment> \<open>GET /api/literature/types\<close>
  | GetSearchHistory
      \<comment> \<open>GET /api/search/history\<close>
  | PostTask string task_data
      \<comment> \<open>POST to the url \<open>startTask\<close> is given, with its JSON body\<close>
  | GetFiles string
      \<comment> \<open>GET /api/files/<category>, category one of links, downloads, exports, logs\<close>

text \<open>
  The texts handed to \<open>addLog\<close>. The source builds them from fixed Chinese templates;
  each template is a constructor here, with the interpolated value as its argument.
\<close>

datatype message =
    NetworkError string          \<comment> \<open>"network error: " + error.message (every catch block)\<close>
  | LoadArticlesFailed string    \<comment> \<open>"loading articles failed: " + result.error\<close>
  | SelectArticlesFirst          \<comment> \<open>"please select the articles to download first"\<close>
  | DownloadStarted nat          \<comment> \<open>"download task started, N articles in total"\<close>
  | SingleDownloadStarted        \<comment> \<open>"single article download started"\<close>
  | StartDownloadFailed string   \<comment> \<open>"starting the download failed: " + result.error\<close>
  | LoadTasksFailed string       \<comment> \<open>"loading tasks failed: " + result.error\<close>
  | LoadDownloadTasksFailed string \<comment> \<open>"loading download tasks failed: " + result.error\<close>
  | TaskPaused                   \<comment> \<open>"task paused"\<close>
  | TaskResumed                  \<comment> \<open>"task resumed"\<close>
  | TaskStopped                  \<comment> \<open>"task stopped"\<close>
  | PauseTaskFailed string       \<comment> \<open>"pausing the task failed: " + result.error\<close>
  | ResumeTaskFailed string      \<comment> \<open>"resuming the task failed: " + result.error\<close>
  | StopTaskFailed string        \<comment> \<open>"stopping the task failed: " + result.error\<close>
  | LoadLiteratureStatsFailed string
      \<comment> \<open>"loading literature type statistics failed:", result.error (console only)\<close>
  | TaskDetailsFailed string     \<comment> \<open>"getting the task details failed: " + result.error\<close>
  | StartingDownload             \<comment> \<open>"starting the download task..."\<close>
  | DownloadTaskStarted          \<comment> \<open>"download task started"\<close>
  | DownloadStopped              \<comment> \<open>"download task stopped"\<close>
  | StopDownloadFailed string    \<comment> \<open>"stopping the download failed: " + result.error\<close>
  | LoadLiteratureTypesFailed string
      \<comment> \<open>"loading literature types failed: " + result.error\<close>
  | StartingTask string          \<comment> \<open>"starting " + taskName + "..."\<close>
  | TaskStarted string           \<comment> \<open>taskName + " started"\<close>
  | StartTaskFailed string string
      \<comment> \<open>"starting " + taskName + " failed: " + result.error\<close>
  | LoadSearchHistoryFailed string
      \<comment> \<open>"loading the search history failed: " + result.error\<close>
  | SelectorNotFound
      \<comment> \<open>"literature type selector not found, retrying later..." (console only)\<close>

text \<open>
  A JavaScript number as far as \<open>totalPages\<close> needs it: \<open>Math.ceil(total / per_page)\<close>
  is an integer, \<open>Infinity\<close> (positive total, \<open>per_page\<close> zero) or \<open>NaN\<close> (both zero).
\<close>

datatype jsnum = Fin int | PosInf | NaN

record article =
  article_id :: int
  title :: string
  keyword :: string
  literature_type :: string

record task =
  task_id :: int
  task_type :: string
  status :: string
  total_items :: nat
  processed_items :: nat
  failed_items :: nat
  progress :: "nat option"
  can_resume :: bool

record download_task =
  dl_id :: int
  dl_status :: string
  total_articles :: nat
  completed_articles :: nat

record literature_stat =
  stat_type :: string
  stat_count :: nat

text \<open>The payload of a successful article listing: \<open>{articles, page, per_page, total}\<close>.\<close>

record articles_page =
  articles :: "article list"
  page :: int
  per_page :: nat
  total :: nat

text \<open>One entry of \<open>result.types\<close> of the literature type listing.\<close>

record literature_kind =
  type_key :: string
  type_name :: string

text \<open>One entry of the search history.\<close>

record history_item =
  search_query :: string
  history_literature_type :: string
  created_at :: string
  result_count :: nat
  search_type :: string

text \<open>What \<open>alert\<close> was called with: the details of a task or of a download task.\<close>

datatype alert = TaskDetails task | DownloadTaskDetails download_task

text \<open>
  One entry of a file listing: \<open>{name, path, size, modified, relative_path?}\<close>.
  \<open>modified\<close> is what \<open>new Date(file.modified)\<close> is: the instant in milliseconds,
  or \<open>None\<close> for an Invalid Date (the text is missing or is no date \<open>new Date\<close> reads).
\<close>

record resource_file =
  name :: string
  path :: string
  file_size :: nat
  modified :: "int option"
  relative_path :: "string option"

text \<open>The \<open>options\<close> argument, after its defaults have been filled in.\<close>

record render_options =
  icon :: string
  showRelative :: bool

text \<open>One \<open>a.list-group-item\<close>: the file it shows, its icon and the relative path, if shown.\<close>

record file_item =
  item_file :: resource_file
  item_icon :: string
  extraPath :: "string option"

text \<open>
  What a file list container holds: nothing yet, the "no files" placeholder with its
  icon, the list of items, or the alert of \<open>renderError\<close> with its message (\<open>None\<close> for
  the fixed text "loading failed").
\<close>

datatype rendering =
  Blank | NoFiles string | FileList "file_item list" | ErrorAlert "string option"

text \<open>One child of \<open>#logContainer\<close>: its class, the timestamp and the message.\<close>

record log_entry =
  className :: string
  timestamp :: string
  entry_message :: message

text \<open>The object literal \<open>stats\<close> of \<open>updateTaskStats\<close>: exactly these four own properties.\<close>

record task_stats =
  running :: nat
  paused :: nat
  completed :: nat
  failed :: nat

text \<open>One \<open>li.page-item\<close> of the pagination bar.\<close>

datatype page_item = Prev int | PageLink int bool | Next int

text \<open>
  The state the methods read and write: the fields of \<open>CNKIApp\<close> and \<open>TaskManager\<close>,
  the parts of the page they render into, and the environment they act on (the
  requests issued so far, the elements clicked, the alerts shown, the lines written
  to the console, the interval timers and pending timeouts, the wall clock).
  \<^item> \<open>selectedArticles\<close> is a JavaScript \<open>Set\<close>: it iterates in insertion order, so it
    is a list without duplicates.
  \<^item> \<open>logContainer\<close>, \<open>pagination\<close>, the literature type select and the four file
    list containers are \<open>None\<close> when the page has no such element, which the methods
    that use them test for; the other elements are those of the console's own page
    and are taken to exist.
  \<^item> \<open>timeouts\<close> holds the arguments of the \<open>displayLiteratureTypes\<close> retries that
    \<open>setTimeout\<close> has been given and that have not run yet.
  \<^item> \<open>maxWorkers\<close> is \<open>parseInt\<close> of the input's value, \<open>None\<close> for \<open>NaN\<close>.
\<close>

record app =
  selectedArticles :: "int list"
  currentArticles :: "article list"
  currentPage :: int
  totalPages :: jsnum
  articlesPerPage :: nat
  tasks :: "task list"
  refreshInterval :: "nat option"
  autoRefreshEnabled :: bool
  logContainer :: "log_entry list option"
  articlesList :: "(article \<times> bool) list"
  selectionToolbar :: bool
  selectedCount :: nat
  pagination :: "page_item list option"
  keywordOptions :: "string list"
  keywordFilter :: string
  literatureStats :: bool
  statsContent :: "literature_stat list"
  tasksList :: "task list"
  taskCounts :: task_stats
  downloadTasksList :: "download_task list"
  literatureTypeSelect :: "(literature_kind \<times> bool) list option"
  searchHistoryList :: "history_item list"
  linkFilesList :: "rendering option"
  downloadFilesList :: "rendering option"
  exportFilesList :: "rendering option"
  logFilesList :: "rendering option"
  alerts :: "alert list"
  timeouts :: "(literature_kind list \<times> string) list"
  clicked :: "string list"
  console :: "message list"
  maxWorkers :: "int option"
  requests :: "request list"
  timers :: "nat list"
  nextTimer :: nat
  now :: string

definition fetch :: "request \<Rightarrow> app \<Rightarrow> app" where
  "fetch r s = s\<lparr>requests := requests s @ [r]\<rparr>"

section \<open>CNKIApp.addLog\<close>

text \<open>
  \<^verbatim>\<open>const logClass = {'info': 'text-info', 'success': 'text-success',
     'error': 'text-danger', 'warning': 'text-warning'}[level] || 'text-muted';\<close>
  The lookup on the object literal also finds what every object inherits from
  \<open>Object.prototype\<close>: for such a level the class is the text of the inherited value,
  which is truthy, and only a level found nowhere gives \<open>text-muted\<close>.
\<close>

definition object_prototype :: "(string \<times> string) list" where
  "object_prototype =
     [(''constructor'', ''function Object() { [native code] }''),
      (''hasOwnProperty'', ''function hasOwnProperty() { [native code] }''),
      (''isPrototypeOf'', ''function isPrototypeOf() { [native code] }''),
      (''propertyIsEnumerable'', ''function propertyIsEnumerable() { [native code] }''),
      (''toLocaleString'', ''function toLocaleString() { [native code] }''),
      (''toString'', ''function toString() { [native code] }''),
      (''valueOf'', ''function valueOf() { [native code] }''),
      (''__defineGetter__'', ''function __defineGetter__() { [native code] }''),
      (''__defineSetter__'', ''function __defineSetter__() { [native code] }''),
      (''__lookupGetter__'', ''function __lookupGetter__() { [native code] }''),
      (''__lookupSetter__'', ''function __lookupSetter__() { [native code] }''),
      (''__proto__'', ''[object Object]'')]"

definition logClass :: "string \<Rightarrow> string" where
  "logClass level =
     (if level = ''info'' then ''text-info''
      else if level = ''success'' then ''text-success''
      else if level = ''error'' then ''text-danger''
      else if level = ''warning'' then ''text-warning''
      else (case map_of object_prototype level of
              Some inherited \<Rightarrow> inherited
            | None \<Rightarrow> ''text-muted''))"

text \<open>
  Without \<open>#logContainer\<close> the call returns at once. Otherwise the entry is appended
  and, when the container then holds more than 100 entries, the first one is removed.
\<close>

definition addLog :: "string \<Rightarrow> message \<Rightarrow> app \<Rightarrow> app" where
  "addLog level msg s =
     (case logContainer s of
        None \<Rightarrow> s
      | Some logs \<Rightarrow>
          let logEntry = \<lparr>className = ''log-entry '' @ logClass level,
                           timestamp = now s, entry_message = msg\<rparr>;
              logs' = logs @ [logEntry]
          in s\<lparr>logContainer := Some (if length logs' > 100 then tl logs' else logs')\<rparr>)"

section \<open>TaskManager\<close>

subsection \<open>updateTaskStats\<close>

text \<open>
  \<^verbatim>\<open>if (stats.hasOwnProperty(task.status)) { stats[task.status]++; }\<close>
  The own properties of \<open>stats\<close> are its four counters, so any other status (such as
  \<open>pending\<close>) leaves \<open>stats\<close> as it is.
\<close>

definition bump :: "task \<Rightarrow> task_stats \<Rightarrow> task_stats" where
  "bump t stats =
     (if status t = ''running'' then stats\<lparr>running := running stats + 1\<rparr>
      else if status t = ''paused'' then stats\<lparr>paused := paused stats + 1\<rparr>
      else if status t = ''completed'' then stats\<lparr>completed := completed stats + 1\<rparr>
      else if status t = ''failed'' then stats\<lparr>failed := failed stats + 1\<rparr>
      else stats)"

definition count_stats :: "task list \<Rightarrow> task_stats" where
  "count_stats ts = fold bump ts \<lparr>running = 0, paused = 0, completed = 0, failed = 0\<rparr>"

definition updateTaskStats :: "app \<Rightarrow> app" where
  "updateTaskStats s = s\<lparr>taskCounts := count_stats (tasks s)\<rparr>"

text \<open>\<open>stats[status]\<close>: the counter kept for a status, if one is kept.\<close>

definition stats_get :: "task_stats \<Rightarrow> string \<Rightarrow> nat option" where
  "stats_get stats st =
     (if st = ''running'' then Some (running stats)
      else if st = ''paused'' then Some (paused stats)
      else if st = ''completed'' then Some (completed stats)
      else if st = ''failed'' then Some (failed stats)
      else None)"

text \<open>The number of tasks of a collection that bear a given status.\<close>

definition bearing :: "string \<Rightarrow> task list \<Rightarrow> nat" where
  "bearing st ts = length (filter (\<lambda>t. status t = st) ts)"

subsection \<open>displayTasks and loadTasks\<close>

text \<open>
  \<open>displayTasks\<close> renders one card per task into \<open>#tasksList\<close>, or the "no tasks"
  placeholder (no card) for an empty list.
\<close>

definition displayTasks :: "task list \<Rightarrow> app \<Rightarrow> app" where
  "displayTasks ts s = (if ts = [] then s\<lparr>tasksList := []\<rparr> else s\<lparr>tasksList := ts\<rparr>)"

text \<open>
  \<open>loadTasks\<close> runs up to its \<open>await fetch('/api/tasks')\<close>, and resumes when the reply
  has arrived; whatever happens in between happens on the state between the two halves.
\<close>

definition loadTasks_start :: "app \<Rightarrow> app" where
  "loadTasks_start s = fetch GetTasks s"

definition loadTasks_resume :: "task list reply \<Rightarrow> app \<Rightarrow> app" where
  "loadTasks_resume result s =
     (case result of
        Success ts \<Rightarrow> updateTaskStats (displayTasks ts (s\<lparr>tasks := ts\<rparr>))
      | Failure e \<Rightarrow> addLog ''error'' (LoadTasksFailed e) s
      | TransportError m \<Rightarrow> addLog ''error'' (NetworkError m) s)"

subsection \<open>pauseTask, resumeTask, stopTask\<close>

definition pauseTask_start :: "int \<Rightarrow> app \<Rightarrow> app" where
  "pauseTask_start taskId s = fetch (PostTaskAction taskId ''pause'') s"


definition resumeTask_start :: "int \<Rightarrow> app \<Rightarrow> app" where
  "resumeTask_start taskId s = fetch (PostTaskAction taskId ''resume'') s"


definition stopTask_start :: "int \<Rightarrow> app \<Rightarrow> app" where
  "stopTask_start taskId s = fetch (PostTaskAction taskId ''stop'') s"


subsection \<open>viewTaskDetails\<close>

definition viewTaskDetails_start :: "int \<Rightarrow> app \<Rightarrow> app" where
  "viewTaskDetails_start taskId s = fetch (GetTask taskId) s"


subsection \<open>startAutoRefresh and stopAutoRefresh\<close>

text \<open>
  The browser's interval timers: \<open>setInterval\<close> hands out a fresh handle and keeps the
  timer in \<open>timers\<close> until \<open>clearInterval\<close> removes it. The callback registered by
  \<open>startAutoRefresh\<close> is \<open>refreshCallback\<close>; \<open>tick h\<close> is the event loop firing timer
  \<open>h\<close>, which runs the callback only while \<open>h\<close> is still registered.
\<close>

definition setInterval :: "app \<Rightarrow> nat \<times> app" where
  "setInterval s =
     (nextTimer s, s\<lparr>timers := timers s @ [nextTimer s], nextTimer := Suc (nextTimer s)\<rparr>)"

definition clearInterval :: "nat \<Rightarrow> app \<Rightarrow> app" where
  "clearInterval h s = s\<lparr>timers := removeAll h (timers s)\<rparr>"

text \<open>\<open>if (this.refreshInterval)\<close>: \<open>null\<close> and the handle 0 are falsy.\<close>

definition truthy :: "nat option \<Rightarrow> bool" where
  "truthy v = (case v of None \<Rightarrow> False | Some h \<Rightarrow> h \<noteq> 0)"

definition refreshCallback :: "app \<Rightarrow> app" where
  "refreshCallback s = (if autoRefreshEnabled s then loadTasks_start s else s)"

definition tick :: "nat \<Rightarrow> app \<Rightarrow> app" where
  "tick h s = (if h \<in> set (timers s) then refreshCallback s else s)"

definition startAutoRefresh :: "app \<Rightarrow> app" where
  "startAutoRefresh s =
     (let s1 = (case refreshInterval s of
                  Some h \<Rightarrow> if truthy (Some h) then clearInterval h s else s
                | None \<Rightarrow> s);
          (h', s2) = setInterval s1
      in s2\<lparr>refreshInterval := Some h'\<rparr>)"

definition stopAutoRefresh :: "app \<Rightarrow> app" where
  "stopAutoRefresh s =
     (case refreshInterval s of
        Some h \<Rightarrow> if truthy (Some h) then (clearInterval h s)\<lparr>refreshInterval := None\<rparr> else s
      | None \<Rightarrow> s)"

section \<open>DownloadManager\<close>


definition downloadManager_loadTasks_start :: "app \<Rightarrow> app" where
  "downloadManager_loadTasks_start s = fetch GetDownloadTasks s"


definition downloadManager_viewTaskDetails_start :: "int \<Rightarrow> app \<Rightarrow> app" where
  "downloadManager_viewTaskDetails_start taskId s = fetch (GetDownloadTask taskId) s"




definition stopDownload_start :: "app \<Rightarrow> app" where
  "stopDownload_start s = fetch PostDownloadStop s"


section \<open>SearchManager\<close>


definition loadLiteratureTypes_start :: "app \<Rightarrow> app" where
  "loadLiteratureTypes_start s = fetch GetLiteratureTypes s"





definition loadSearchHistory_start :: "app \<Rightarrow> app" where
  "loadSearchHistory_start s = fetch GetSearchHistory s"


section \<open>ArticleManager\<close>

subsection \<open>Selection and rendering\<close>

text \<open>\<open>Set.prototype.add\<close>: a new element goes last, a present one changes nothing.\<close>

definition set_add :: "'a \<Rightarrow> 'a list \<Rightarrow> 'a list" where
  "set_add x xs = (if x \<in> set xs then xs else xs @ [x])"

definition updateSelectionToolbar :: "app \<Rightarrow> app" where
  "updateSelectionToolbar s =
     (if length (selectedArticles s) > 0
      then s\<lparr>selectionToolbar := True, selectedCount := length (selectedArticles s)\<rparr>
      else s\<lparr>selectionToolbar := False\<rparr>)"

text \<open>A card is the article and whether it is drawn as selected.\<close>

definition createArticleCard :: "app \<Rightarrow> article \<Rightarrow> article \<times> bool" where
  "createArticleCard s a = (a, article_id a \<in> set (selectedArticles s))"

definition displayArticles :: "article list \<Rightarrow> app \<Rightarrow> app" where
  "displayArticles as s =
     (if length as = 0 then s\<lparr>articlesList := []\<rparr>
      else updateSelectionToolbar (s\<lparr>articlesList := map (createArticleCard s) as\<rparr>))"

text \<open>\<open>document.querySelector\<close> finds the first card with the id; only that one is restyled.\<close>

fun restyle_card :: "int \<Rightarrow> bool \<Rightarrow> (article \<times> bool) list \<Rightarrow> (article \<times> bool) list" where
  "restyle_card i b [] = []"
| "restyle_card i b (c # cs) =
     (if article_id (fst c) = i then (fst c, b) # cs else c # restyle_card i b cs)"

definition toggleSelection :: "int \<Rightarrow> app \<Rightarrow> app" where
  "toggleSelection articleId s =
     (let s1 = (if articleId \<in> set (selectedArticles s)
                then s\<lparr>selectedArticles := removeAll articleId (selectedArticles s)\<rparr>
                else s\<lparr>selectedArticles := set_add articleId (selectedArticles s)\<rparr>);
          s2 = updateSelectionToolbar s1
      in s2\<lparr>articlesList :=
              restyle_card articleId (articleId \<in> set (selectedArticles s2)) (articlesList s2)\<rparr>)"

definition selectAll :: "app \<Rightarrow> app" where
  "selectAll s =
     (let s1 = s\<lparr>selectedArticles :=
                  fold (\<lambda>a sel. set_add (article_id a) sel) (currentArticles s) (selectedArticles s)\<rparr>
      in displayArticles (currentArticles s1) s1)"

definition clearSelection :: "app \<Rightarrow> app" where
  "clearSelection s = (let s1 = s\<lparr>selectedArticles := []\<rparr> in displayArticles (currentArticles s1) s1)"

subsection \<open>updatePagination\<close>

text \<open>
  \<open>currentPage\<close> is the reply's \<open>page\<close>. The arithmetic on page numbers is that of the
  integers, which is JavaScript's as long as the numbers stay safe integers: reading
  them, adding and subtracting 2 and stepping the loop counter are exact there.

  The comparisons and \<open>Math.min\<close> on \<open>totalPages\<close>. Every comparison with \<open>NaN\<close> is
  false; \<open>Math.min\<close> with \<open>NaN\<close> is \<open>NaN\<close> (here \<open>None\<close>), and with \<open>Infinity\<close> it is the
  other argument.
\<close>

definition jsnum_le :: "jsnum \<Rightarrow> int \<Rightarrow> bool" where
  "jsnum_le x k = (case x of Fin n \<Rightarrow> n \<le> k | PosInf \<Rightarrow> False | NaN \<Rightarrow> False)"

definition le_jsnum :: "int \<Rightarrow> jsnum \<Rightarrow> bool" where
  "le_jsnum k x = (case x of Fin n \<Rightarrow> k \<le> n | PosInf \<Rightarrow> True | NaN \<Rightarrow> False)"

definition less_jsnum :: "int \<Rightarrow> jsnum \<Rightarrow> bool" where
  "less_jsnum k x = (case x of Fin n \<Rightarrow> k < n | PosInf \<Rightarrow> True | NaN \<Rightarrow> False)"

definition math_min :: "jsnum \<Rightarrow> int \<Rightarrow> int option" where
  "math_min x k = (case x of Fin n \<Rightarrow> Some (min n k) | PosInf \<Rightarrow> Some k | NaN \<Rightarrow> None)"

text \<open>\<^verbatim>\<open>for (let i = startPage; i <= endPage; i++)\<close>: no iteration when \<open>endPage\<close> is \<open>NaN\<close>.\<close>

definition page_loop :: "int \<Rightarrow> int option \<Rightarrow> int list" where
  "page_loop startPage endPage = (case endPage of None \<Rightarrow> [] | Some e \<Rightarrow> [startPage..e])"

definition updatePagination :: "app \<Rightarrow> app" where
  "updatePagination s =
     (case pagination s of
        None \<Rightarrow> s
      | Some _ \<Rightarrow>
          if jsnum_le (totalPages s) 1 then s\<lparr>pagination := Some []\<rparr>
          else
            let prev = (if currentPage s > 1 then [Prev (currentPage s - 1)] else []);
                startPage = max 1 (currentPage s - 2);
                endPage = math_min (totalPages s) (currentPage s + 2);
                pages = map (\<lambda>i. PageLink i (i = currentPage s)) (page_loop startPage endPage);
                next = (if less_jsnum (currentPage s) (totalPages s)
                        then [Next (currentPage s + 1)] else [])
            in s\<lparr>pagination := Some (prev @ pages @ next)\<rparr>)"

text \<open>The page indices the bar shows: those of its numbered links.\<close>

fun page_indices :: "page_item list \<Rightarrow> int list" where
  "page_indices [] = []"
| "page_indices (PageLink i _ # xs) = i # page_indices xs"
| "page_indices (_ # xs) = page_indices xs"

definition visible_window :: "app \<Rightarrow> int list" where
  "visible_window s = (case pagination s of None \<Rightarrow> [] | Some items \<Rightarrow> page_indices items)"

subsection \<open>updateKeywordFilter and the literature statistics\<close>

definition updateKeywordFilter :: "string list \<Rightarrow> app \<Rightarrow> app" where
  "updateKeywordFilter keywords s =
     (let currentValue = keywordFilter s
      in s\<lparr>keywordOptions := keywords,
           keywordFilter := (if currentValue \<in> set keywords then currentValue else [])\<rparr>)"

definition displayLiteratureStats :: "literature_stat list \<Rightarrow> app \<Rightarrow> app" where
  "displayLiteratureStats stats s =
     (if length stats = 0 then s\<lparr>literatureStats := False\<rparr>
      else s\<lparr>literatureStats := True, statsContent := stats\<rparr>)"

definition loadLiteratureStats_start :: "app \<Rightarrow> app" where
  "loadLiteratureStats_start s = fetch GetLiteratureStats s"

text \<open>Both failure branches write with \<open>console.error\<close>; \<open>addLog\<close> is not called.\<close>

definition loadLiteratureStats_resume :: "literature_stat list reply \<Rightarrow> app \<Rightarrow> app" where
  "loadLiteratureStats_resume result s =
     (case result of
        Success stats \<Rightarrow> displayLiteratureStats stats s
      | Failure e \<Rightarrow> s\<lparr>console := console s @ [LoadLiteratureStatsFailed e]\<rparr>
      | TransportError m \<Rightarrow> s\<lparr>console := console s @ [NetworkError m]\<rparr>)"

subsection \<open>loadArticles\<close>

text \<open>
  \<open>Math.ceil(result.total / result.per_page)\<close>. The two counts arrive as JSON numbers
  and are double precision values from then on: an integer with more than 53
  significant bits is rounded to the nearest double, ties to the even significand, and
  becomes \<open>Infinity\<close> from \<open>2 ^ 1024\<close> on; the quotient is rounded the same way before
  \<open>Math.ceil\<close> sees it.
\<close>

fun bit_length :: "nat \<Rightarrow> nat" where
  "bit_length n = (if n = 0 then 0 else Suc (bit_length (n div 2)))"

declare bit_length.simps [simp del]

text \<open>\<open>p / q\<close> rounded to the nearest integer, a tie going to the even one.\<close>

definition round_half_even :: "nat \<Rightarrow> nat \<Rightarrow> nat" where
  "round_half_even p q =
     (let f = p div q; r = p mod q
      in if 2 * r < q then f else if q < 2 * r then f + 1 else if even f then f else f + 1)"

text \<open>The double a non-negative integer of the JSON text is parsed to.\<close>

definition to_double :: "nat \<Rightarrow> jsnum" where
  "to_double n =
     (let bits = bit_length n;
          v = (if bits \<le> 53 then n
               else round_half_even n (2 ^ (bits - 53)) * 2 ^ (bits - 53))
      in if bit_length v > 1024 then PosInf else Fin (int v))"

text \<open>
  \<open>Math.ceil(a / b)\<close> for two positive integer doubles. A quotient below 1 is some
  double in \<open>(0, 1]\<close>, whose ceiling is 1. Otherwise the quotient lies in the binade of
  its integer part: with \<open>bits\<close> bits before the point it keeps \<open>53 - bits\<close> bits after
  it, or, when \<open>bits\<close> exceeds 53, is a multiple of \<open>2 ^ (bits - 53)\<close>.
\<close>

definition ceil_quotient :: "nat \<Rightarrow> nat \<Rightarrow> nat" where
  "ceil_quotient a b =
     (if a < b then 1
      else let bits = bit_length (a div b)
           in if bits \<le> 53
              then let sh = 2 ^ (53 - bits); m = round_half_even (a * sh) b
                   in (m + sh - 1) div sh
              else let sh = 2 ^ (bits - 53)
                   in round_half_even a (b * sh) * sh)"

definition math_ceil_div :: "nat \<Rightarrow> nat \<Rightarrow> jsnum" where
  "math_ceil_div a b =
     (case to_double a of
        Fin x \<Rightarrow>
          (case to_double b of
             Fin y \<Rightarrow>
               if y = 0 then (if x = 0 then NaN else PosInf)
               else if x = 0 then Fin 0
               else Fin (int (ceil_quotient (nat x) (nat y)))
           | PosInf \<Rightarrow> Fin 0
           | NaN \<Rightarrow> NaN)
      | PosInf \<Rightarrow> (case to_double b of Fin y \<Rightarrow> PosInf | PosInf \<Rightarrow> NaN | NaN \<Rightarrow> NaN)
      | NaN \<Rightarrow> NaN)"

text \<open>
  The integers a double holds exactly (\<open>Number.isSafeInteger\<close>), and a reply whose
  counts are such and whose page number stays such two pages up and down, so that
  the page arithmetic of \<open>updatePagination\<close> is exact.
\<close>

definition safe_integer :: "int \<Rightarrow> bool" where
  "safe_integer n = (\<bar>n\<bar> < 2 ^ 53)"

definition safe_reply :: "articles_page \<Rightarrow> bool" where
  "safe_reply r =
     (safe_integer (page r - 2) \<and> safe_integer (page r + 2)
      \<and> safe_integer (int (total r)) \<and> safe_integer (int (per_page r)))"

definition loadArticles_start :: "int \<Rightarrow> string \<Rightarrow> string \<Rightarrow> string \<Rightarrow> app \<Rightarrow> app" where
  "loadArticles_start pg search kw literatureType s =
     fetch (GetArticles pg (articlesPerPage s) search kw literatureType) s"

definition loadArticles_resume :: "articles_page reply \<Rightarrow> app \<Rightarrow> app" where
  "loadArticles_resume result s =
     (case result of
        Success r \<Rightarrow>
          let s1 = s\<lparr>currentArticles := articles r, currentPage := page r,
                     totalPages := math_ceil_div (total r) (per_page r)\<rparr>;
              s2 = displayArticles (currentArticles s1) s1;
              s3 = updatePagination s2;
              keywords = fold set_add (filter (\<lambda>k. k \<noteq> []) (map keyword (articles r))) [];
              s4 = updateKeywordFilter keywords s3
          in loadLiteratureStats_start s4
      | Failure e \<Rightarrow> addLog ''error'' (LoadArticlesFailed e) s
      | TransportError m \<Rightarrow> addLog ''error'' (NetworkError m) s)"

text \<open>A whole load, when nothing else runs between the request and its reply.\<close>

definition loadArticles ::
  "int \<Rightarrow> string \<Rightarrow> string \<Rightarrow> string \<Rightarrow> articles_page reply \<Rightarrow> app \<Rightarrow> app" where
  "loadArticles pg search kw literatureType result s =
     loadArticles_resume result (loadArticles_start pg search kw literatureType s)"

subsection \<open>downloadSelected and downloadSingle\<close>

text \<open>
  \<open>downloadSelected\<close> either returns before any request (\<open>None\<close>) or issues the request
  and awaits the reply, holding on to its local \<open>articleIds\<close>.
\<close>

definition downloadSelected_start :: "app \<Rightarrow> int list option \<times> app" where
  "downloadSelected_start s =
     (if length (selectedArticles s) = 0
      then (None, addLog ''error'' SelectArticlesFirst s)
      else let articleIds = selectedArticles s
           in (Some articleIds, fetch (PostArticlesDownload articleIds (maxWorkers s)) s))"

definition downloadSelected_resume :: "int list \<Rightarrow> unit reply \<Rightarrow> app \<Rightarrow> app" where
  "downloadSelected_resume articleIds result s =
     (case result of
        Success _ \<Rightarrow>
          let s1 = addLog ''info'' (DownloadStarted (length articleIds)) s;
              s2 = clearSelection s1;
              s3 = downloadManager_loadTasks_start s2
          in s3\<lparr>clicked := clicked s3 @ [''download-tab'']\<rparr>
      | Failure e \<Rightarrow> addLog ''error'' (StartDownloadFailed e) s
      | TransportError m \<Rightarrow> addLog ''error'' (NetworkError m) s)"

definition downloadSelected :: "unit reply \<Rightarrow> app \<Rightarrow> app" where
  "downloadSelected result s =
     (case downloadSelected_start s of
        (None, s') \<Rightarrow> s'
      | (Some articleIds, s') \<Rightarrow> downloadSelected_resume articleIds result s')"

definition downloadSingle_start :: "int \<Rightarrow> app \<Rightarrow> app" where
  "downloadSingle_start articleId s = fetch (PostArticlesDownload [articleId] (Some 1)) s"

definition downloadSingle_resume :: "unit reply \<Rightarrow> app \<Rightarrow> app" where
  "downloadSingle_resume result s =
     (case result of
        Success _ \<Rightarrow> downloadManager_loadTasks_start (addLog ''info'' SingleDownloadStarted s)
      | Failure e \<Rightarrow> addLog ''error'' (StartDownloadFailed e) s
      | TransportError m \<Rightarrow> addLog ''error'' (NetworkError m) s)"

definition downloadSingle :: "int \<Rightarrow> unit reply \<Rightarrow> app \<Rightarrow> app" where
  "downloadSingle articleId result s = downloadSingle_resume result (downloadSingle_start articleId s)"

text \<open>
  The window in the specification's words: the five page indices centred on the current
  page, kept where they lie within 1 and \<open>totalPages\<close>.
\<close>

definition spec_window :: "int \<Rightarrow> jsnum \<Rightarrow> int list" where
  "spec_window cp tp = filter (\<lambda>i. 1 \<le> i \<and> le_jsnum i tp) [cp - 2..cp + 2]"

section \<open>ResourceManager\<close>

text \<open>
  \<open>Array.prototype.sort(comparefn)\<close>, modelled from the language specification: a
  comparator result that is \<open>NaN\<close> (here \<open>None\<close>) counts as 0; the sort is stable, \<open>a\<close>
  comes before \<open>b\<close> when \<open>comparefn(a, b)\<close> is negative, and elements that compare as
  equal keep their order. Insertion from the right is that sort. Where the comparator
  is no consistent order the specification leaves the result to the engine, and
  insertion is one such engine.
\<close>

definition sort_compare :: "int option \<Rightarrow> int" where
  "sort_compare v = (case v of None \<Rightarrow> 0 | Some n \<Rightarrow> n)"

fun insert_sorted :: "('a \<Rightarrow> 'a \<Rightarrow> int option) \<Rightarrow> 'a \<Rightarrow> 'a list \<Rightarrow> 'a list" where
  "insert_sorted comparefn x [] = [x]"
| "insert_sorted comparefn x (y # ys) =
     (if sort_compare (comparefn x y) \<le> 0 then x # y # ys
      else y # insert_sorted comparefn x ys)"

definition array_sort :: "('a \<Rightarrow> 'a \<Rightarrow> int option) \<Rightarrow> 'a list \<Rightarrow> 'a list" where
  "array_sort comparefn xs = foldr (insert_sorted comparefn) xs []"

text \<open>
  \<^verbatim>\<open>(a, b) => new Date(b.modified) - new Date(a.modified)\<close>: the difference of the two
  instants, \<open>NaN\<close> when either date is invalid.
\<close>

definition by_modified :: "resource_file \<Rightarrow> resource_file \<Rightarrow> int option" where
  "by_modified a b =
     (case modified b of
        None \<Rightarrow> None
      | Some tb \<Rightarrow> (case modified a of None \<Rightarrow> None | Some ta \<Rightarrow> Some (tb - ta)))"

definition render_item :: "render_options \<Rightarrow> resource_file \<Rightarrow> file_item" where
  "render_item opts f =
     \<lparr>item_file = f, item_icon = icon opts,
      extraPath = (if showRelative opts
                   then (case relative_path f of
                           Some p \<Rightarrow> if p \<noteq> [] then Some p else None
                         | None \<Rightarrow> None)
                   else None)\<rparr>"

text \<open>\<open>!files || files.length === 0\<close>: a missing list (\<open>None\<close>) and an empty one give the placeholder.\<close>

definition renderFileList :: "resource_file list option \<Rightarrow> render_options \<Rightarrow> rendering" where
  "renderFileList files opts =
     (case files of
        None \<Rightarrow> NoFiles (icon opts)
      | Some fs \<Rightarrow>
          if length fs = 0 then NoFiles (icon opts)
          else FileList (map (render_item opts) (array_sort by_modified fs)))"

text \<open>
  \<open>renderError\<close>, and what a loader makes of its reply: a success envelope goes to
  \<open>renderFileList\<close>; an error envelope is thrown as an \<open>Error\<close> with \<open>data.error\<close>, or
  with the fixed text when that is empty, and like a transport error ends in
  \<open>renderError\<close>. \<open>addLog\<close> is not called.
\<close>

definition renderError :: "string option \<Rightarrow> rendering" where
  "renderError message = ErrorAlert message"

definition loadFiles_resume :: "render_options \<Rightarrow> resource_file list option reply \<Rightarrow> rendering" where
  "loadFiles_resume opts data =
     (case data of
        Success files \<Rightarrow> renderFileList files opts
      | Failure e \<Rightarrow> renderError (if e \<noteq> [] then Some e else None)
      | TransportError m \<Rightarrow> renderError (Some m))"



definition export_options :: render_options where
  "export_options = \<lparr>icon = ''bi-filetype-csv'', showRelative = False\<rparr>"


definition loadLinkFiles_start :: "app \<Rightarrow> app" where
  "loadLinkFiles_start s =
     (case linkFilesList s of None \<Rightarrow> s | Some _ \<Rightarrow> fetch (GetFiles ''links'') s)"


definition loadDownloadFiles_start :: "app \<Rightarrow> app" where
  "loadDownloadFiles_start s =
     (case downloadFilesList s of None \<Rightarrow> s | Some _ \<Rightarrow> fetch (GetFiles ''downloads'') s)"


definition loadExportFiles_start :: "app \<Rightarrow> app" where
  "loadExportFiles_start s =
     (case exportFilesList s of None \<Rightarrow> s | Some _ \<Rightarrow> fetch (GetFiles ''exports'') s)"

definition loadExportFiles_resume :: "resource_file list option reply \<Rightarrow> app \<Rightarrow> app" where
  "loadExportFiles_resume data s =
     s\<lparr>exportFilesList := Some (loadFiles_resume export_options data)\<rparr>"

definition loadLogFiles_start :: "app \<Rightarrow> app" where
  "loadLogFiles_start s =
     (case logFilesList s of None \<Rightarrow> s | Some _ \<Rightarrow> fetch (GetFiles ''logs'') s)"


text \<open>
  Most recently modified first: every file has a valid date, and none is followed by
  a more recently modified one.
\<close>

definition not_older :: "resource_file \<Rightarrow> resource_file \<Rightarrow> bool" where
  "not_older a b =
     (case modified a of
        None \<Rightarrow> False
      | Some ta \<Rightarrow> (case modified b of None \<Rightarrow> False | Some tb \<Rightarrow> tb \<le> ta))"

definition newest_first :: "resource_file list \<Rightarrow> bool" where
  "newest_first fs = sorted_wrt not_older fs"

text \<open>The instant of a file with a valid date.\<close>

definition instant :: "resource_file \<Rightarrow> int" where
  "instant f = (case modified f of None \<Rightarrow> 0 | Some t \<Rightarrow> t)"

text \<open>A file whose date is valid.\<close>

definition dated :: "resource_file \<Rightarrow> bool" where
  "dated f = (modified f \<noteq> None)"

section \<open>The console as first loaded\<close>

text \<open>
  The fields as the constructors of \<open>CNKIApp\<close> and \<open>TaskManager\<close> set them, on a page
  that has every container the methods look for and nothing rendered yet; the worker
  input reads 3, timer handles start at 1.
\<close>

definition initial :: app where
  "initial =
     \<lparr>selectedArticles = [], currentArticles = [], currentPage = 1, totalPages = Fin 1,
      articlesPerPage = 10, tasks = [], refreshInterval = None, autoRefreshEnabled = True,
      logContainer = Some [], articlesList = [], selectionToolbar = False,
      selectedCount = 0, pagination = Some [], keywordOptions = [], keywordFilter = [],
      literatureStats = False, statsContent = [], tasksList = [],
      taskCounts = \<lparr>running = 0, paused = 0, completed = 0, failed = 0\<rparr>,
      downloadTasksList = [], literatureTypeSelect = Some [], searchHistoryList = [],
      linkFilesList = Some Blank, downloadFilesList = Some Blank,
      exportFilesList = Some Blank, logFilesList = Some Blank, alerts = [],
      timeouts = [], clicked = [], console = [], maxWorkers = Some 3,
      requests = [], timers = [], nextTimer = 1, now = ''12:00:00''\<rparr>"

definition sample_task :: task where
  "sample_task =
     \<lparr>task_id = 1, task_type = ''download'', status = ''running'', total_items = 4,
      processed_items = 1, failed_items = 0, progress = Some 25, can_resume = True\<rparr>"

definition sample_page :: articles_page where
  "sample_page = \<lparr>articles = [], page = 5, per_page = 10, total = 95\<rparr>"

definition one_page :: articles_page where
  "one_page = \<lparr>articles = [], page = 1, per_page = 10, total = 5\<rparr>"

definition pending_task :: task where
  "pending_task =
     \<lparr>task_id = 2, task_type = ''keyword_search'', status = ''pending'', total_items = 0,
      processed_items = 0, failed_items = 0, progress = None, can_resume = False\<rparr>"

definition sample_files :: "resource_file list" where
  "sample_files =
     [\<lparr>name = ''a.csv'', path = ''exports/a.csv'', file_size = 2048, modified = Some 1000,
       relative_path = None\<rparr>,
      \<lparr>name = ''c.csv'', path = ''exports/c.csv'', file_size = 10, modified = Some 3000,
       relative_path = None\<rparr>,
      \<lparr>name = ''b.csv'', path = ''exports/b.csv'', file_size = 512, modified = Some 2000,
       relative_path = None\<rparr>]"

text \<open>A listing whose second file has a date that cannot be read.\<close>

definition undated_files :: "resource_file list" where
  "undated_files =
     [\<lparr>name = ''a.csv'', path = ''exports/a.csv'', file_size = 2048, modified = Some 1000,
       relative_path = None\<rparr>,
      \<lparr>name = ''b.csv'', path = ''exports/b.csv'', file_size = 512, modified = None,
       relative_path = None\<rparr>,
      \<lparr>name = ''c.csv'', path = ''exports/c.csv'', file_size = 10, modified = Some 3000,
       relative_path = None\<rparr>]"

section \<open>Aggregate counts\<close>

lemma fold_bump_running:
  "running (fold bump ts acc) = running acc + bearing ''running'' ts"
  by (induction ts arbitrary: acc) (simp_all add: bearing_def bump_def)

lemma fold_bump_paused:
  "paused (fold bump ts acc) = paused acc + bearing ''paused'' ts"
  by (induction ts arbitrary: acc) (simp_all add: bearing_def bump_def)

lemma fold_bump_completed:
  "completed (fold bump ts acc) = completed acc + bearing ''completed'' ts"
  by (induction ts arbitrary: acc) (simp_all add: bearing_def bump_def)

lemma fold_bump_failed:
  "failed (fold bump ts acc) = failed acc + bearing ''failed'' ts"
  by (induction ts arbitrary: acc) (simp_all add: bearing_def bump_def)

lemma count_stats_eq:
  "count_stats ts = \<lparr>running = bearing ''running'' ts, paused = bearing ''paused'' ts,
                     completed = bearing ''completed'' ts, failed = bearing ''failed'' ts\<rparr>"
  by (simp add: count_stats_def fold_bump_running fold_bump_paused fold_bump_completed
      fold_bump_failed)

lemma stats_get_count_stats:
  "stats_get (count_stats ts) st =
     (if st \<in> {''running'', ''paused'', ''completed'', ''failed''} then Some (bearing st ts)
      else None)"
  by (simp add: count_stats_eq stats_get_def)

text \<open>
  C3, as the code has it. \<open>updateTaskStats\<close> keeps a counter for four statuses only:
  running, paused, completed and failed. For each of these it shows the exact number
  of tasks of the current collection bearing that status; a task bearing any other
  status, such as pending, is skipped and that status has no counter. The collection
  with statuses running, running, paused, completed, failed, completed gives 2, 1, 2
  and 1.
\<close>

theorem updateTaskStats_exact:
  "taskCounts (updateTaskStats s) =
     \<lparr>running = bearing ''running'' (tasks s), paused = bearing ''paused'' (tasks s),
      completed = bearing ''completed'' (tasks s), failed = bearing ''failed'' (tasks s)\<rparr>
   \<and> stats_get (taskCounts (updateTaskStats s)) st =
       (if st \<in> {''running'', ''paused'', ''completed'', ''failed''}
        then Some (bearing st (tasks s)) else None)
   \<and> taskCounts (updateTaskStats (s\<lparr>tasks :=
        map (\<lambda>st. t\<lparr>status := st\<rparr>)
          [''running'', ''running'', ''paused'', ''completed'', ''failed'', ''completed'']\<rparr>)) =
     \<lparr>running = 2, paused = 1, completed = 2, failed = 1\<rparr>"
proof -
  have a: "taskCounts (updateTaskStats s) = count_stats (tasks s)" for s
    by (simp add: updateTaskStats_def)
  show ?thesis
    unfolding a stats_get_count_stats by (simp add: count_stats_eq bearing_def)
qed

text \<open>
  C3 as stated fails for the status pending: of two pending tasks, none is counted
  anywhere, and no counter is kept for their status.
\<close>

theorem pending_not_counted_counterexample:
  "bearing ''pending'' [pending_task, pending_task] = 2
   \<and> taskCounts (updateTaskStats (initial\<lparr>tasks := [pending_task, pending_task]\<rparr>)) =
       \<lparr>running = 0, paused = 0, completed = 0, failed = 0\<rparr>
   \<and> stats_get (taskCounts (updateTaskStats (initial\<lparr>tasks := [pending_task, pending_task]\<rparr>)))
        ''pending'' = None"
  by (simp add: updateTaskStats_def count_stats_eq bearing_def pending_task_def stats_get_def)

section \<open>Polling\<close>

lemma addLog_frame:
  "tasks (addLog l m s) = tasks s" "tasksList (addLog l m s) = tasksList s"
  "taskCounts (addLog l m s) = taskCounts s" "refreshInterval (addLog l m s) = refreshInterval s"
  "timers (addLog l m s) = timers s" "autoRefreshEnabled (addLog l m s) = autoRefreshEnabled s"
  "requests (addLog l m s) = requests s" "selectedArticles (addLog l m s) = selectedArticles s"
  by (simp_all add: addLog_def Let_def split: option.splits)

lemma addLog_last:
  "logContainer s = Some logs \<Longrightarrow>
   \<exists>logs'. logContainer (addLog l m s) = Some logs' \<and> logs' \<noteq> [] \<and>
     last logs' = \<lparr>className = ''log-entry '' @ logClass l, timestamp = now s, entry_message = m\<rparr>"
  by (cases logs) (simp_all add: addLog_def Let_def last_tl)

lemma stopAutoRefresh_frame:
  "tasks (stopAutoRefresh s) = tasks s" "taskCounts (stopAutoRefresh s) = taskCounts s"
  "tasksList (stopAutoRefresh s) = tasksList s"
  by (simp_all add: stopAutoRefresh_def clearInterval_def split: option.splits)

lemma startAutoRefresh_frame:
  "tasks (startAutoRefresh s) = tasks s" "taskCounts (startAutoRefresh s) = taskCounts s"
  "tasksList (startAutoRefresh s) = tasksList s"
  by (simp_all add: startAutoRefresh_def clearInterval_def setInterval_def Let_def
      split: option.splits)

lemma loadTasks_resume_Success:
  "tasks (loadTasks_resume (Success ts) s) = ts"
  "tasksList (loadTasks_resume (Success ts) s) = ts"
  "taskCounts (loadTasks_resume (Success ts) s) = count_stats ts"
  by (simp_all add: loadTasks_resume_def updateTaskStats_def displayTasks_def)

text \<open>
  C7. A poll of the task list that fails with a transport error is handed to \<open>addLog\<close>
  at level \<open>error\<close> and does nothing else: the task snapshot, its rendering and its
  counts are as before, the interval timer stays registered, so its next firing issues
  the next poll; on a page with the log container the new last entry is the error.
\<close>

theorem failed_poll_keeps_snapshot:
  "loadTasks_resume (TransportError m) s = addLog ''error'' (NetworkError m) s
   \<and> tasks (loadTasks_resume (TransportError m) s) = tasks s
   \<and> tasksList (loadTasks_resume (TransportError m) s) = tasksList s
   \<and> taskCounts (loadTasks_resume (TransportError m) s) = taskCounts s
   \<and> refreshInterval (loadTasks_resume (TransportError m) s) = refreshInterval s
   \<and> timers (loadTasks_resume (TransportError m) s) = timers s
   \<and> (h \<in> set (timers s) \<and> autoRefreshEnabled s \<longrightarrow>
        requests (tick h (loadTasks_resume (TransportError m) s)) = requests s @ [GetTasks])
   \<and> (logContainer s = Some logs \<longrightarrow>
        (\<exists>logs'. logContainer (loadTasks_resume (TransportError m) s) = Some logs' \<and>
           logs' \<noteq> [] \<and>
           last logs' = \<lparr>className = ''log-entry text-danger'', timestamp = now s,
                         entry_message = NetworkError m\<rparr>))"
proof -
  have eq: "loadTasks_resume (TransportError m) s = addLog ''error'' (NetworkError m) s"
    by (simp add: loadTasks_resume_def)
  have next_poll: "h \<in> set (timers s) \<and> autoRefreshEnabled s \<longrightarrow>
      requests (tick h (addLog ''error'' (NetworkError m) s)) = requests s @ [GetTasks]"
    by (simp add: tick_def refreshCallback_def loadTasks_start_def fetch_def addLog_frame)
  have logged: "logContainer s = Some logs \<longrightarrow>
      (\<exists>logs'. logContainer (addLog ''error'' (NetworkError m) s) = Some logs' \<and>
         logs' \<noteq> [] \<and>
         last logs' = \<lparr>className = ''log-entry text-danger'', timestamp = now s,
                       entry_message = NetworkError m\<rparr>)"
    using addLog_last [of s logs "''error''" "NetworkError m"] by (simp add: logClass_def)
  show ?thesis
    unfolding eq using next_poll logged by (simp add: addLog_frame)
qed

theorem failed_poll_keeps_snapshot_witness:
  "(let s = (startAutoRefresh (loadTasks_resume (Success [sample_task]) initial));
        s' = loadTasks_resume (TransportError ''Failed to fetch'') s
    in 1 \<in> set (timers s) \<and> autoRefreshEnabled s \<and> logContainer s = Some []
       \<and> tasks s' = [sample_task] \<and> timers s' = [1]
       \<and> requests (tick 1 s') = [GetTasks]
       \<and> logContainer s' = Some [\<lparr>className = ''log-entry text-danger'',
            timestamp = ''12:00:00'', entry_message = NetworkError ''Failed to fetch''\<rparr>])"
  using failed_poll_keeps_snapshot
    [of "''Failed to fetch''" "startAutoRefresh (loadTasks_resume (Success [sample_task]) initial)"
      1 "[]"]
  by (simp add: Let_def initial_def startAutoRefresh_def setInterval_def loadTasks_resume_def
      updateTaskStats_def displayTasks_def addLog_def logClass_def tick_def refreshCallback_def
      loadTasks_start_def fetch_def)

lemma stopAutoRefresh_cancels:
  "refreshInterval s = Some h \<Longrightarrow> h \<noteq> 0 \<Longrightarrow>
   timers (stopAutoRefresh s) = removeAll h (timers s) \<and>
   refreshInterval (stopAutoRefresh s) = None \<and>
   tick h (stopAutoRefresh s) = stopAutoRefresh s"
  by (simp add: stopAutoRefresh_def clearInterval_def truthy_def tick_def)

lemma startAutoRefresh_restarts:
  "refreshInterval s = Some h \<Longrightarrow> h \<noteq> 0 \<Longrightarrow>
   timers (startAutoRefresh s) = removeAll h (timers s) @ [nextTimer s] \<and>
   refreshInterval (startAutoRefresh s) = Some (nextTimer s)"
  by (simp add: startAutoRefresh_def clearInterval_def setInterval_def truthy_def Let_def)

lemma startAutoRefresh_cancels:
  assumes "refreshInterval s = Some h" "h \<noteq> 0" "h \<noteq> nextTimer s"
  shows "tick h (startAutoRefresh s) = startAutoRefresh s"
proof -
  have "h \<notin> set (timers (startAutoRefresh s))"
    using assms startAutoRefresh_restarts [of s h] by simp
  then show ?thesis
    by (simp add: tick_def)
qed

text \<open>
  C2, as the code has it. \<open>stopAutoRefresh\<close> only cancels the interval timer, and a
  newer \<open>startAutoRefresh\<close> cancels the old timer and registers a new one; the cancelled
  timer, whose handle the new one does not share, issues no further poll. Nothing
  marks the poll already in flight as stale: when its reply resolves it is applied
  like any other. A success reply replaces \<open>tasks\<close>, the rendered list and the counts
  with the reply's; an error reply or a transport error leaves them as they were.
\<close>

theorem late_poll_reply_is_applied:
  "tasks (loadTasks_resume (Success ts) (stopAutoRefresh s)) = ts
   \<and> tasksList (loadTasks_resume (Success ts) (stopAutoRefresh s)) = ts
   \<and> taskCounts (loadTasks_resume (Success ts) (stopAutoRefresh s)) = count_stats ts
   \<and> tasks (loadTasks_resume (Success ts) (startAutoRefresh s)) = ts
   \<and> tasksList (loadTasks_resume (Success ts) (startAutoRefresh s)) = ts
   \<and> taskCounts (loadTasks_resume (Success ts) (startAutoRefresh s)) = count_stats ts
   \<and> tasks (loadTasks_resume (Failure e) (stopAutoRefresh s)) = tasks s
   \<and> taskCounts (loadTasks_resume (Failure e) (stopAutoRefresh s)) = taskCounts s
   \<and> tasks (loadTasks_resume (TransportError m) (stopAutoRefresh s)) = tasks s
   \<and> taskCounts (loadTasks_resume (TransportError m) (stopAutoRefresh s)) = taskCounts s
   \<and> tasks (loadTasks_resume (Failure e) (startAutoRefresh s)) = tasks s
   \<and> taskCounts (loadTasks_resume (Failure e) (startAutoRefresh s)) = taskCounts s
   \<and> tasks (loadTasks_resume (TransportError m) (startAutoRefresh s)) = tasks s
   \<and> taskCounts (loadTasks_resume (TransportError m) (startAutoRefresh s)) = taskCounts s
   \<and> (refreshInterval s = Some h \<and> h \<noteq> 0 \<longrightarrow>
        timers (stopAutoRefresh s) = removeAll h (timers s) \<and>
        refreshInterval (stopAutoRefresh s) = None \<and>
        tick h (stopAutoRefresh s) = stopAutoRefresh s)
   \<and> (refreshInterval s = Some h \<and> h \<noteq> 0 \<longrightarrow>
        timers (startAutoRefresh s) = removeAll h (timers s) @ [nextTimer s] \<and>
        refreshInterval (startAutoRefresh s) = Some (nextTimer s))
   \<and> (refreshInterval s = Some h \<and> h \<noteq> 0 \<and> h \<noteq> nextTimer s \<longrightarrow>
        tick h (startAutoRefresh s) = startAutoRefresh s)"
proof -
  have a: "tasks (loadTasks_resume (Failure e) (stopAutoRefresh s)) = tasks s"
    "taskCounts (loadTasks_resume (Failure e) (stopAutoRefresh s)) = taskCounts s"
    "tasks (loadTasks_resume (TransportError m) (stopAutoRefresh s)) = tasks s"
    "taskCounts (loadTasks_resume (TransportError m) (stopAutoRefresh s)) = taskCounts s"
    by (simp_all add: loadTasks_resume_def addLog_frame stopAutoRefresh_frame)
  have a': "tasks (loadTasks_resume (Failure e) (startAutoRefresh s)) = tasks s"
    "taskCounts (loadTasks_resume (Failure e) (startAutoRefresh s)) = taskCounts s"
    "tasks (loadTasks_resume (TransportError m) (startAutoRefresh s)) = tasks s"
    "taskCounts (loadTasks_resume (TransportError m) (startAutoRefresh s)) = taskCounts s"
    by (simp_all add: loadTasks_resume_def addLog_frame startAutoRefresh_frame)
  have b: "refreshInterval s = Some h \<and> h \<noteq> 0 \<longrightarrow>
        timers (stopAutoRefresh s) = removeAll h (timers s) \<and>
        refreshInterval (stopAutoRefresh s) = None \<and>
        tick h (stopAutoRefresh s) = stopAutoRefresh s"
    using stopAutoRefresh_cancels [of s h] by blast
  have c: "refreshInterval s = Some h \<and> h \<noteq> 0 \<longrightarrow>
        timers (startAutoRefresh s) = removeAll h (timers s) @ [nextTimer s] \<and>
        refreshInterval (startAutoRefresh s) = Some (nextTimer s)"
    using startAutoRefresh_restarts [of s h] by blast
  have d: "refreshInterval s = Some h \<and> h \<noteq> 0 \<and> h \<noteq> nextTimer s \<longrightarrow>
        tick h (startAutoRefresh s) = startAutoRefresh s"
    using startAutoRefresh_cancels [of s h] by blast
  show ?thesis
    using a a' b c d by (simp add: loadTasks_resume_Success)
qed

lemma started_once:
  "refreshInterval (startAutoRefresh initial) = Some 1"
  "nextTimer (startAutoRefresh initial) = 2"
  "timers (startAutoRefresh initial) = [1]"
  by (simp_all add: initial_def startAutoRefresh_def setInterval_def Let_def)

theorem late_poll_reply_is_applied_witness:
  "refreshInterval (startAutoRefresh initial) = Some 1 \<and> (1::nat) \<noteq> 0
   \<and> 1 \<noteq> nextTimer (startAutoRefresh initial)
   \<and> timers (startAutoRefresh initial) = [1]
   \<and> timers (stopAutoRefresh (startAutoRefresh initial)) = []
   \<and> tick 1 (stopAutoRefresh (startAutoRefresh initial)) = stopAutoRefresh (startAutoRefresh initial)
   \<and> timers (startAutoRefresh (startAutoRefresh initial)) = [2]
   \<and> tick 1 (startAutoRefresh (startAutoRefresh initial)) = startAutoRefresh (startAutoRefresh initial)
   \<and> tasks (loadTasks_resume (Success [sample_task]) (stopAutoRefresh (startAutoRefresh initial)))
        = [sample_task]
   \<and> tasks (loadTasks_resume (Success [sample_task]) (startAutoRefresh (startAutoRefresh initial)))
        = [sample_task]"
  using late_poll_reply_is_applied [of "[sample_task]" "startAutoRefresh initial" _ _ 1]
  by (simp add: started_once)

text \<open>
  C2 as stated fails: start the auto refresh on the fresh console, let the timer fire
  (the poll is now in flight), stop the auto refresh, then let the reply resolve with
  one task. The timer is gone, and yet the registry and its counts have changed.
\<close>

theorem late_poll_reply_counterexample:
  "GetTasks \<in> set (requests (stopAutoRefresh (tick 1 (startAutoRefresh initial))))
   \<and> timers (stopAutoRefresh (tick 1 (startAutoRefresh initial))) = []
   \<and> refreshInterval (stopAutoRefresh (tick 1 (startAutoRefresh initial))) = None
   \<and> tasks (stopAutoRefresh (tick 1 (startAutoRefresh initial))) = []
   \<and> tasks (loadTasks_resume (Success [sample_task])
        (stopAutoRefresh (tick 1 (startAutoRefresh initial)))) = [sample_task]
   \<and> taskCounts (loadTasks_resume (Success [sample_task])
        (stopAutoRefresh (tick 1 (startAutoRefresh initial))))
      \<noteq> taskCounts (stopAutoRefresh (tick 1 (startAutoRefresh initial)))"
  by (simp add: initial_def startAutoRefresh_def setInterval_def tick_def refreshCallback_def
      loadTasks_start_def fetch_def stopAutoRefresh_def clearInterval_def truthy_def
      loadTasks_resume_def updateTaskStats_def displayTasks_def count_stats_def bump_def
      sample_task_def Let_def)

section \<open>The selection\<close>

lemma selection_frame:
  "selectedArticles (fetch r s) = selectedArticles s"
  "selectedArticles (updateSelectionToolbar s) = selectedArticles s"
  "selectedArticles (displayArticles as s) = selectedArticles s"
  "selectedArticles (updatePagination s) = selectedArticles s"
  "selectedArticles (updateKeywordFilter ks s) = selectedArticles s"
  "selectedArticles (displayLiteratureStats st s) = selectedArticles s"
  "selectedArticles (loadLiteratureStats_start s) = selectedArticles s"
  "selectedArticles (downloadManager_loadTasks_start s) = selectedArticles s"
  by (simp_all add: fetch_def updateSelectionToolbar_def displayArticles_def updatePagination_def
      updateKeywordFilter_def displayLiteratureStats_def loadLiteratureStats_start_def
      downloadManager_loadTasks_start_def Let_def split: option.splits)

lemma loadLiteratureStats_resume_selection:
  "selectedArticles (loadLiteratureStats_resume result s) = selectedArticles s"
  by (cases result) (simp_all add: loadLiteratureStats_resume_def selection_frame)

lemma loadArticles_resume_selection:
  "selectedArticles (loadArticles_resume result s) = selectedArticles s"
  by (cases result)
    (simp_all add: loadArticles_resume_def Let_def selection_frame addLog_frame)

lemma loadArticles_start_selection:
  "selectedArticles (loadArticles_start pg q kw lt s) = selectedArticles s"
  by (simp add: loadArticles_start_def selection_frame)

lemma toggleSelection_selection:
  "selectedArticles (toggleSelection i s) =
     (if i \<in> set (selectedArticles s) then removeAll i (selectedArticles s)
      else selectedArticles s @ [i])"
  by (simp add: toggleSelection_def Let_def selection_frame set_add_def)

lemma clearSelection_selection: "selectedArticles (clearSelection s) = []"
  by (simp add: clearSelection_def Let_def selection_frame)

text \<open>
  C9. Loading a page of articles never changes the selection: not when the request is
  issued, not when the reply (of any outcome) is applied, not when the statistics
  load it starts resolves. Selecting 3 and 7 on page 1, loading page 2 and returning
  to page 1 under the same filter leaves exactly 3 and 7 selected.
\<close>

theorem loadArticles_keeps_selection:
  "selectedArticles (loadArticles_start pg search kw literatureType s) = selectedArticles s
   \<and> selectedArticles (loadArticles_resume result s) = selectedArticles s
   \<and> selectedArticles (loadLiteratureStats_resume stats s) = selectedArticles s
   \<and> selectedArticles (loadArticles pg search kw literatureType result s) = selectedArticles s
   \<and> selectedArticles
        (loadArticles 1 search kw literatureType r3
          (loadArticles 2 search kw literatureType r2
            (toggleSelection 7 (toggleSelection 3
              (loadArticles 1 search kw literatureType r1 initial))))) = [3, 7]"
proof -
  have "selectedArticles initial = []"
    by (simp add: initial_def)
  then show ?thesis
    by (simp add: loadArticles_def loadArticles_resume_selection loadArticles_start_selection
        loadLiteratureStats_resume_selection toggleSelection_selection)
qed

lemma downloadSelected_resume_selection:
  "selectedArticles (downloadSelected_resume ids (Success u) s) = []"
  "selectedArticles (downloadSelected_resume ids (Failure e) s) = selectedArticles s"
  "selectedArticles (downloadSelected_resume ids (TransportError m) s) = selectedArticles s"
  by (simp_all add: downloadSelected_resume_def Let_def selection_frame addLog_frame
      clearSelection_selection)

lemma downloadSelected_nonempty:
  "selectedArticles s \<noteq> [] \<Longrightarrow>
   downloadSelected result s =
     downloadSelected_resume (selectedArticles s) result
       (fetch (PostArticlesDownload (selectedArticles s) (maxWorkers s)) s)"
  by (simp add: downloadSelected_def downloadSelected_start_def Let_def)

lemma downloadSelected_empty:
  "selectedArticles s = [] \<Longrightarrow> downloadSelected result s = addLog ''error'' SelectArticlesFirst s"
  by (simp add: downloadSelected_def downloadSelected_start_def)

text \<open>
  C1, as the code has it. The call of \<open>clearSelection\<close> stands in the success branch
  only: a bulk dispatch of a non-empty selection empties the selection when the reply
  reports success, and leaves it as it was when the reply reports an error or the
  request fails in transport.
\<close>

theorem downloadSelected_clears_on_success_only:
  "selectedArticles (downloadSelected_resume ids (Success u) s) = []
   \<and> selectedArticles (downloadSelected_resume ids (Failure e) s) = selectedArticles s
   \<and> selectedArticles (downloadSelected_resume ids (TransportError m) s) = selectedArticles s
   \<and> (selectedArticles s \<noteq> [] \<longrightarrow>
        selectedArticles (downloadSelected (Success u) s) = []
        \<and> selectedArticles (downloadSelected (Failure e) s) = selectedArticles s
        \<and> selectedArticles (downloadSelected (TransportError m) s) = selectedArticles s)"
  by (simp add: downloadSelected_resume_selection downloadSelected_nonempty selection_frame)

theorem downloadSelected_clears_on_success_only_witness:
  "selectedArticles (toggleSelection 7 (toggleSelection 3 initial)) = [3, 7]
   \<and> selectedArticles (downloadSelected (Success ()) (toggleSelection 7 (toggleSelection 3 initial))) = []
   \<and> selectedArticles (downloadSelected (Failure ''queue full'')
        (toggleSelection 7 (toggleSelection 3 initial))) = [3, 7]
   \<and> selectedArticles (downloadSelected (TransportError ''Failed to fetch'')
        (toggleSelection 7 (toggleSelection 3 initial))) = [3, 7]"
proof -
  have sel: "selectedArticles (toggleSelection 7 (toggleSelection 3 initial)) = [3, 7]"
    by (simp add: toggleSelection_selection initial_def)
  show ?thesis
    using downloadSelected_clears_on_success_only
      [of _ "()" "toggleSelection 7 (toggleSelection 3 initial)" "''queue full''" "''Failed to fetch''"]
    by (simp add: sel)
qed

text \<open>
  C1 as stated fails: with 3 and 7 selected, a dispatch answered by an error envelope,
  or failing in transport, leaves both selected.
\<close>

theorem downloadSelected_keeps_selection_counterexample:
  "selectedArticles (toggleSelection 7 (toggleSelection 3 initial)) = [3, 7]
   \<and> selectedArticles (downloadSelected (Failure ''queue full'')
        (toggleSelection 7 (toggleSelection 3 initial))) \<noteq> []
   \<and> selectedArticles (downloadSelected (TransportError ''Failed to fetch'')
        (toggleSelection 7 (toggleSelection 3 initial))) \<noteq> []"
proof -
  have sel: "selectedArticles (toggleSelection 7 (toggleSelection 3 initial)) = [3, 7]"
    by (simp add: toggleSelection_selection initial_def)
  show ?thesis
    by (simp add: sel downloadSelected_nonempty selection_frame
      downloadSelected_resume_selection)
qed

section \<open>Dispatch and error reporting\<close>

lemma addLog_log:
  "logContainer s = Some logs \<Longrightarrow>
   logContainer (addLog l m s) =
     Some ((if 100 \<le> length logs then tl logs else logs) @
       [\<lparr>className = ''log-entry '' @ logClass l, timestamp = now s, entry_message = m\<rparr>])"
  by (cases logs) (simp_all add: addLog_def Let_def)

lemma addLog_only_log: "(addLog l m s)\<lparr>logContainer := logContainer s\<rparr> = s"
  by (cases "logContainer s") (simp_all add: addLog_def Let_def)

text \<open>
  C8. With nothing selected, \<open>downloadSelected\<close> returns before any request: no network
  call is issued, the validation error goes to \<open>addLog\<close> at level \<open>error\<close>, and apart
  from that log entry the state is what it was.
\<close>

theorem downloadSelected_empty_selection:
  "selectedArticles s = [] \<Longrightarrow>
     downloadSelected_start s = (None, addLog ''error'' SelectArticlesFirst s)
     \<and> downloadSelected result s = addLog ''error'' SelectArticlesFirst s
     \<and> requests (downloadSelected result s) = requests s
     \<and> (downloadSelected result s)\<lparr>logContainer := logContainer s\<rparr> = s
     \<and> (logContainer s = Some logs \<longrightarrow>
          logContainer (downloadSelected result s) =
            Some ((if 100 \<le> length logs then tl logs else logs) @
              [\<lparr>className = ''log-entry text-danger'', timestamp = now s,
                entry_message = SelectArticlesFirst\<rparr>]))"
  using addLog_log [of s logs "''error''" SelectArticlesFirst]
  by (simp add: downloadSelected_empty downloadSelected_start_def addLog_frame addLog_only_log
      logClass_def)

theorem downloadSelected_empty_selection_witness:
  "selectedArticles initial = [] \<and> logContainer initial = Some []
   \<and> downloadSelected_start initial = (None, addLog ''error'' SelectArticlesFirst initial)
   \<and> requests (downloadSelected (Success ()) initial) = []
   \<and> logContainer (downloadSelected (Success ()) initial) =
        Some [\<lparr>className = ''log-entry text-danger'', timestamp = ''12:00:00'',
               entry_message = SelectArticlesFirst\<rparr>]"
proof -
  have i: "selectedArticles initial = []" "logContainer initial = Some []"
    "requests initial = []" "now initial = ''12:00:00''"
    by (simp_all add: initial_def)
  show ?thesis
    using downloadSelected_empty_selection
        [where s = initial and logs = "[]" and result = "Success ()"]
    by (auto simp: i)
qed

lemma fetch_frame:
  "logContainer (fetch r s) = logContainer s" "clicked (fetch r s) = clicked s"
  "now (fetch r s) = now s" "requests (fetch r s) = requests s @ [r]"
  "maxWorkers (fetch r s) = maxWorkers s"
  by (simp_all add: fetch_def)

lemma addLog_frame2:
  "clicked (addLog l m s) = clicked s" "now (addLog l m s) = now s"
  by (simp_all add: addLog_def Let_def split: option.splits)

lemma clearSelection_frame:
  "logContainer (clearSelection s) = logContainer s" "clicked (clearSelection s) = clicked s"
  "requests (clearSelection s) = requests s"
  by (simp_all add: clearSelection_def displayArticles_def updateSelectionToolbar_def Let_def)

lemma downloadSelected_resume_Success:
  "requests (downloadSelected_resume ids (Success u) s) = requests s @ [GetDownloadTasks]"
  "clicked (downloadSelected_resume ids (Success u) s) = clicked s @ [''download-tab'']"
  "logContainer (downloadSelected_resume ids (Success u) s) =
     logContainer (addLog ''info'' (DownloadStarted (length ids)) s)"
  by (simp_all add: downloadSelected_resume_def Let_def downloadManager_loadTasks_start_def
      fetch_frame clearSelection_frame addLog_frame addLog_frame2)

lemma downloadSingle_resume_Success:
  "requests (downloadSingle_resume (Success u) s) = requests s @ [GetDownloadTasks]"
  "clicked (downloadSingle_resume (Success u) s) = clicked s"
  "logContainer (downloadSingle_resume (Success u) s) =
     logContainer (addLog ''info'' SingleDownloadStarted s)"
  by (simp_all add: downloadSingle_resume_def downloadManager_loadTasks_start_def
      fetch_frame addLog_frame addLog_frame2)

text \<open>
  C5, as the code has it. With exactly \<open>articleId\<close> selected and the worker input
  reading 1, \<open>downloadSelected\<close> and \<open>downloadSingle articleId\<close> issue the same request, and
  on an error reply or a transport error they leave the same state. On success both
  go on to request the download task list, and otherwise part: \<open>downloadSelected\<close>
  logs the count of articles, empties the selection and clicks the download tab;
  \<open>downloadSingle\<close> logs its own message, leaves the selection alone and clicks nothing.
\<close>

theorem downloadSingle_agrees_with_downloadSelected:
  "selectedArticles s = [articleId] \<Longrightarrow> maxWorkers s = Some 1 \<Longrightarrow>
     downloadSelected_start s = (Some [articleId], downloadSingle_start articleId s)
     \<and> requests (downloadSingle_start articleId s) =
         requests s @ [PostArticlesDownload [articleId] (Some 1)]
     \<and> downloadSelected (Failure e) s = downloadSingle articleId (Failure e) s
     \<and> downloadSelected (TransportError m) s = downloadSingle articleId (TransportError m) s
     \<and> selectedArticles (downloadSelected (Success u) s) = []
     \<and> selectedArticles (downloadSingle articleId (Success u) s) = [articleId]
     \<and> requests (downloadSelected (Success u) s) =
         requests s @ [PostArticlesDownload [articleId] (Some 1), GetDownloadTasks]
     \<and> requests (downloadSingle articleId (Success u) s) =
         requests s @ [PostArticlesDownload [articleId] (Some 1), GetDownloadTasks]
     \<and> clicked (downloadSelected (Success u) s) = clicked s @ [''download-tab'']
     \<and> clicked (downloadSingle articleId (Success u) s) = clicked s
     \<and> (logContainer s = Some logs \<longrightarrow>
          logContainer (downloadSelected (Success u) s) =
            Some ((if 100 \<le> length logs then tl logs else logs) @
              [\<lparr>className = ''log-entry text-info'', timestamp = now s,
                entry_message = DownloadStarted 1\<rparr>])
          \<and> logContainer (downloadSingle articleId (Success u) s) =
            Some ((if 100 \<le> length logs then tl logs else logs) @
              [\<lparr>className = ''log-entry text-info'', timestamp = now s,
                entry_message = SingleDownloadStarted\<rparr>]))"
proof -
  assume sel: "selectedArticles s = [articleId]" and w: "maxWorkers s = Some 1"
  let ?s1 = "downloadSingle_start articleId s"
  have start: "downloadSelected_start s = (Some [articleId], ?s1)"
    by (simp add: downloadSelected_start_def downloadSingle_start_def sel w Let_def)
  have req: "requests ?s1 = requests s @ [PostArticlesDownload [articleId] (Some 1)]"
    by (simp add: downloadSingle_start_def fetch_def)
  have s1: "logContainer ?s1 = logContainer s" "clicked ?s1 = clicked s" "now ?s1 = now s"
    by (simp_all add: downloadSingle_start_def fetch_frame)
  have run: "downloadSelected result s = downloadSelected_resume [articleId] result ?s1" for result
    by (simp add: downloadSelected_def start)
  have fail: "downloadSelected (Failure e) s = downloadSingle articleId (Failure e) s"
    "downloadSelected (TransportError m) s = downloadSingle articleId (TransportError m) s"
    by (simp_all add: run downloadSingle_def downloadSelected_resume_def downloadSingle_resume_def)
  have ok1: "selectedArticles (downloadSelected (Success u) s) = []"
    by (simp add: run downloadSelected_resume_selection)
  have ok2: "selectedArticles (downloadSingle articleId (Success u) s) = [articleId]"
    by (simp add: downloadSingle_def downloadSingle_resume_def downloadSingle_start_def
        selection_frame addLog_frame sel)
  have rq: "requests (downloadSelected (Success u) s) =
      requests s @ [PostArticlesDownload [articleId] (Some 1), GetDownloadTasks]"
    "requests (downloadSingle articleId (Success u) s) =
      requests s @ [PostArticlesDownload [articleId] (Some 1), GetDownloadTasks]"
    by (simp_all add: run downloadSingle_def downloadSelected_resume_Success
        downloadSingle_resume_Success req)
  have cl: "clicked (downloadSelected (Success u) s) = clicked s @ [''download-tab'']"
    "clicked (downloadSingle articleId (Success u) s) = clicked s"
    by (simp_all add: run downloadSingle_def downloadSelected_resume_Success
        downloadSingle_resume_Success s1)
  have lg: "logContainer s = Some logs \<longrightarrow>
      logContainer (downloadSelected (Success u) s) =
        Some ((if 100 \<le> length logs then tl logs else logs) @
          [\<lparr>className = ''log-entry text-info'', timestamp = now s,
            entry_message = DownloadStarted 1\<rparr>])
      \<and> logContainer (downloadSingle articleId (Success u) s) =
        Some ((if 100 \<le> length logs then tl logs else logs) @
          [\<lparr>className = ''log-entry text-info'', timestamp = now s,
            entry_message = SingleDownloadStarted\<rparr>])"
  proof
    assume l: "logContainer s = Some logs"
    then have l1: "logContainer ?s1 = Some logs"
      by (simp add: s1)
    show "logContainer (downloadSelected (Success u) s) =
        Some ((if 100 \<le> length logs then tl logs else logs) @
          [\<lparr>className = ''log-entry text-info'', timestamp = now s,
            entry_message = DownloadStarted 1\<rparr>])
      \<and> logContainer (downloadSingle articleId (Success u) s) =
        Some ((if 100 \<le> length logs then tl logs else logs) @
          [\<lparr>className = ''log-entry text-info'', timestamp = now s,
            entry_message = SingleDownloadStarted\<rparr>])"
      using addLog_log [OF l1, of "''info''" "DownloadStarted 1"]
        addLog_log [OF l1, of "''info''" SingleDownloadStarted]
      by (simp add: run downloadSingle_def downloadSelected_resume_Success
          downloadSingle_resume_Success s1 logClass_def)
  qed
  show ?thesis
    using start req fail ok1 ok2 rq cl lg by simp
qed

lemma one_selected:
  "selectedArticles (toggleSelection 5 (initial\<lparr>maxWorkers := Some 1\<rparr>)) = [5]"
  "maxWorkers (toggleSelection 5 (initial\<lparr>maxWorkers := Some 1\<rparr>)) = Some 1"
  "logContainer (toggleSelection 5 (initial\<lparr>maxWorkers := Some 1\<rparr>)) = Some []"
  "clicked (toggleSelection 5 (initial\<lparr>maxWorkers := Some 1\<rparr>)) = []"
  "now (toggleSelection 5 (initial\<lparr>maxWorkers := Some 1\<rparr>)) = ''12:00:00''"
  by (simp_all add: toggleSelection_def Let_def updateSelectionToolbar_def set_add_def initial_def)

theorem downloadSingle_agrees_with_downloadSelected_witness:
  "selectedArticles (toggleSelection 5 (initial\<lparr>maxWorkers := Some 1\<rparr>)) = [5]
   \<and> maxWorkers (toggleSelection 5 (initial\<lparr>maxWorkers := Some 1\<rparr>)) = Some 1
   \<and> logContainer (toggleSelection 5 (initial\<lparr>maxWorkers := Some 1\<rparr>)) = Some []
   \<and> downloadSelected (Failure ''queue full'') (toggleSelection 5 (initial\<lparr>maxWorkers := Some 1\<rparr>))
       = downloadSingle 5 (Failure ''queue full'') (toggleSelection 5 (initial\<lparr>maxWorkers := Some 1\<rparr>))
   \<and> selectedArticles
        (downloadSingle 5 (Success ()) (toggleSelection 5 (initial\<lparr>maxWorkers := Some 1\<rparr>))) = [5]
   \<and> clicked (downloadSelected (Success ()) (toggleSelection 5 (initial\<lparr>maxWorkers := Some 1\<rparr>)))
       = [''download-tab'']
   \<and> logContainer
        (downloadSelected (Success ()) (toggleSelection 5 (initial\<lparr>maxWorkers := Some 1\<rparr>))) =
       Some [\<lparr>className = ''log-entry text-info'', timestamp = ''12:00:00'',
              entry_message = DownloadStarted 1\<rparr>]
   \<and> logContainer
        (downloadSingle 5 (Success ()) (toggleSelection 5 (initial\<lparr>maxWorkers := Some 1\<rparr>))) =
       Some [\<lparr>className = ''log-entry text-info'', timestamp = ''12:00:00'',
              entry_message = SingleDownloadStarted\<rparr>]"
  using downloadSingle_agrees_with_downloadSelected
    [where s = "toggleSelection 5 (initial\<lparr>maxWorkers := Some 1\<rparr>)" and articleId = 5
       and e = "''queue full''" and u = "()" and logs = "[]"]
  by (simp add: one_selected)

text \<open>
  C5 as stated fails on the success outcome: from the same state with only article 5
  selected and one worker, the two calls end in different states.
\<close>

theorem downloadSingle_differs_counterexample:
  "selectedArticles (toggleSelection 5 (initial\<lparr>maxWorkers := Some 1\<rparr>)) = [5]
   \<and> maxWorkers (toggleSelection 5 (initial\<lparr>maxWorkers := Some 1\<rparr>)) = Some 1
   \<and> downloadSelected (Success ()) (toggleSelection 5 (initial\<lparr>maxWorkers := Some 1\<rparr>))
       \<noteq> downloadSingle 5 (Success ()) (toggleSelection 5 (initial\<lparr>maxWorkers := Some 1\<rparr>))"
proof -
  let ?s = "toggleSelection 5 (initial\<lparr>maxWorkers := Some 1\<rparr>)"
  have a: "selectedArticles (downloadSelected (Success ()) ?s) = []"
    by (simp add: one_selected downloadSelected_nonempty downloadSelected_resume_selection)
  have b: "selectedArticles (downloadSingle 5 (Success ()) ?s) = [5]"
    by (simp add: one_selected downloadSingle_def downloadSingle_start_def downloadSingle_resume_def
        selection_frame addLog_frame)
  have "downloadSelected (Success ()) ?s \<noteq> downloadSingle 5 (Success ()) ?s"
  proof
    assume "downloadSelected (Success ()) ?s = downloadSingle 5 (Success ()) ?s"
    then have "selectedArticles (downloadSelected (Success ()) ?s) =
        selectedArticles (downloadSingle 5 (Success ()) ?s)"
      by simp
    then show False
      by (simp only: a b) simp
  qed
  then show ?thesis
    by (simp add: one_selected)
qed




section \<open>Pagination\<close>

lemma page_indices_append: "page_indices (xs @ ys) = page_indices xs @ page_indices ys"
  by (induction xs rule: page_indices.induct) simp_all

lemma page_indices_links: "page_indices (map (\<lambda>i. PageLink i (f i)) xs) = xs"
  by (induction xs) simp_all

lemma filter_upto_clamp:
  "filter (\<lambda>i. lo \<le> i \<and> i \<le> hi) [a..b] = [max lo a..min hi b]"
  by (rule sorted_distinct_set_unique) (auto simp: sorted_wrt_filter)

lemma filter_upto_lower:
  "filter (\<lambda>i. lo \<le> i) [a..b] = [max lo a..b]"
  by (rule sorted_distinct_set_unique) (auto simp: sorted_wrt_filter)

lemma page_loop_window:
  "page_loop (max 1 (cp - 2)) (math_min tp (cp + 2)) = spec_window cp tp"
  by (cases tp)
    (simp_all add: page_loop_def math_min_def spec_window_def le_jsnum_def filter_upto_clamp
      filter_upto_lower)

lemma spec_window_length: "length (spec_window cp tp) \<le> 5"
proof -
  have "length (spec_window cp tp) \<le> length [cp - 2..cp + 2]"
    unfolding spec_window_def by (rule length_filter_le)
  then show ?thesis by simp
qed

lemma spec_window_set:
  "i \<in> set (spec_window cp tp) \<Longrightarrow> 1 \<le> i \<and> le_jsnum i tp \<and> cp - 2 \<le> i \<and> i \<le> cp + 2"
  by (auto simp: spec_window_def)

lemma visible_window_updatePagination:
  "visible_window (updatePagination s) =
     (if pagination s = None \<or> jsnum_le (totalPages s) 1 then []
      else spec_window (currentPage s) (totalPages s))"
  by (cases "pagination s")
    (simp_all add: visible_window_def updatePagination_def Let_def page_indices_append
      page_indices_links page_loop_window)

lemma pagination_frame:
  "pagination (fetch q s) = pagination s"
  "pagination (updateSelectionToolbar s) = pagination s"
  "pagination (displayArticles as s) = pagination s"
  "pagination (updateKeywordFilter ks s) = pagination s"
  "totalPages (fetch q s) = totalPages s"
  "totalPages (updateSelectionToolbar s) = totalPages s"
  "totalPages (displayArticles as s) = totalPages s"
  "totalPages (updateKeywordFilter ks s) = totalPages s"
  "totalPages (updatePagination s) = totalPages s"
  "currentPage (fetch q s) = currentPage s"
  "currentPage (updateSelectionToolbar s) = currentPage s"
  "currentPage (displayArticles as s) = currentPage s"
  "currentPage (updateKeywordFilter ks s) = currentPage s"
  "currentPage (updatePagination s) = currentPage s"
  by (simp_all add: fetch_def updateSelectionToolbar_def displayArticles_def
      updateKeywordFilter_def updatePagination_def Let_def split: option.splits)

lemma visible_window_frame:
  "visible_window (fetch q s) = visible_window s"
  "visible_window (updateKeywordFilter ks s) = visible_window s"
  by (simp_all add: visible_window_def pagination_frame)

lemma loadArticles_resume_Success:
  "totalPages (loadArticles_resume (Success r) s) = math_ceil_div (total r) (per_page r)"
  "currentPage (loadArticles_resume (Success r) s) = page r"
  "visible_window (loadArticles_resume (Success r) s) =
     (if pagination s = None \<or> jsnum_le (math_ceil_div (total r) (per_page r)) 1 then []
      else spec_window (page r) (math_ceil_div (total r) (per_page r)))"
  by (simp_all add: loadArticles_resume_def Let_def loadLiteratureStats_start_def
      pagination_frame visible_window_frame visible_window_updatePagination)

lemma spec_window_example: "spec_window 5 (Fin 10) = [3, 4, 5, 6, 7]"
  by (simp add: spec_window_def le_jsnum_def upto.simps)

lemma loadArticles_resume_emptied:
  "pagination s \<noteq> None \<Longrightarrow> jsnum_le (math_ceil_div (total r) (per_page r)) 1 \<Longrightarrow>
   pagination (loadArticles_resume (Success r) s) = Some []"
  by (auto simp: loadArticles_resume_def Let_def loadLiteratureStats_start_def
      pagination_frame updatePagination_def)

lemma bit_length_le: "n < 2 ^ k \<Longrightarrow> bit_length n \<le> k"
proof (induction n arbitrary: k rule: bit_length.induct)
  case (1 n)
  show ?case
  proof (cases "n = 0")
    case True
    then show ?thesis by (simp add: bit_length.simps)
  next
    case False
    then obtain j where k: "k = Suc j"
      using "1.prems" by (cases k) auto
    have "n div 2 < 2 ^ j"
      using "1.prems" k by auto
    then have "bit_length (n div 2) \<le> j"
      using "1.IH" False by blast
    then show ?thesis
      using False k by (simp add: bit_length.simps [of n])
  qed
qed

lemma bit_length_lower: "0 < n \<Longrightarrow> 2 ^ (bit_length n - 1) \<le> n"
proof (induction n rule: bit_length.induct)
  case (1 n)
  show ?case
  proof (cases "n div 2 = 0")
    case True
    then show ?thesis
      using "1.prems" by (simp add: bit_length.simps [of n] bit_length.simps [of 0])
  next
    case False
    then have ih: "2 ^ (bit_length (n div 2) - 1) \<le> n div 2"
      using "1.IH" "1.prems" by auto
    have pos: "0 < bit_length (n div 2)"
      using False by (simp add: bit_length.simps [of "n div 2"])
    have "bit_length n = Suc (bit_length (n div 2))"
      using "1.prems" by (simp add: bit_length.simps [of n])
    then have "(2::nat) ^ (bit_length n - 1) = 2 * 2 ^ (bit_length (n div 2) - 1)"
      using pos by (cases "bit_length (n div 2)") auto
    also have "\<dots> \<le> 2 * (n div 2)"
      using ih by simp
    also have "\<dots> \<le> n"
      by simp
    finally show ?thesis .
  qed
qed

lemma round_half_even_bounds:
  "0 < q \<Longrightarrow> p div q \<le> round_half_even p q \<and> round_half_even p q \<le> p div q + 1"
  by (simp add: round_half_even_def Let_def)

lemma round_half_even_exact: "0 < q \<Longrightarrow> round_half_even (k * q) q = k"
  by (simp add: round_half_even_def Let_def)

lemma round_half_even_up:
  "q < 2 * (p mod q) \<Longrightarrow> round_half_even p q = p div q + 1"
  by (simp add: round_half_even_def Let_def)

lemma div_add_small: "r < q \<Longrightarrow> (k * q + r) div q = (k::nat)"
  by simp

lemma ceil_quotient_exact:
  assumes b: "0 < b" and ab: "b \<le> a" and a: "a < 2 ^ 53"
  shows "ceil_quotient a b = (a + b - 1) div b"
proof -
  define k where "k = a div b"
  define r where "r = a mod b"
  define bits where "bits = bit_length k"
  define S :: nat where "S = 2 ^ (53 - bits)"
  have k1: "1 \<le> k"
    using b ab by (simp add: k_def div_greater_zero_iff Suc_leI)
  have akr: "a = k * b + r"
    by (simp add: k_def r_def)
  have rb: "r < b"
    using b by (simp add: r_def)
  have "k \<le> a"
    by (simp add: k_def)
  then have "k < 2 ^ 53"
    using a by simp
  then have bits53: "bits \<le> 53"
    unfolding bits_def by (rule bit_length_le)
  have bits1: "1 \<le> bits"
    using k1 by (simp add: bits_def bit_length.simps [of k])
  have S0: "0 < S"
    by (simp add: S_def)
  have low: "2 ^ (bits - 1) \<le> k"
    using bit_length_lower [of k] k1 by (simp add: bits_def)
  have "2 ^ (bits - 1) * b \<le> k * b"
    using low by simp
  also have "\<dots> \<le> a"
    by (simp add: akr)
  finally have A: "2 ^ (bits - 1) * b < (2::nat) ^ 53"
    using a by simp
  have B: "(2::nat) ^ 53 = 2 ^ (bits - 1) * (2 * S)"
  proof -
    have "53 = (bits - 1) + (1 + (53 - bits))"
      using bits1 bits53 by simp
    then have "(2::nat) ^ 53 = 2 ^ ((bits - 1) + (1 + (53 - bits)))"
      by simp
    then show ?thesis
      by (simp only: power_add S_def) simp
  qed
  have "2 ^ (bits - 1) * b < 2 ^ (bits - 1) * (2 * S)"
    by (rule ord_less_eq_trans [OF A B])
  then have b2S: "b < 2 * S"
    by (simp only: mult_less_cancel1)
  have cq: "ceil_quotient a b = (round_half_even (a * S) b + S - 1) div S"
    using ab bits53 by (simp add: ceil_quotient_def Let_def k_def bits_def S_def)
  show ?thesis
  proof (cases "r = 0")
    case True
    then have "a * S = (k * S) * b"
      by (simp add: akr)
    then have "round_half_even (a * S) b = k * S"
      using round_half_even_exact [OF b, of "k * S"] by (simp only:)
    moreover have "(k * S + S - 1) div S = k"
    proof -
      have e: "k * S + S - 1 = k * S + (S - 1)"
        using S0 by simp
      have l: "S - 1 < S"
        using S0 by simp
      show ?thesis
        unfolding e by (rule div_add_small [OF l])
    qed
    moreover have "(a + b - 1) div b = k"
    proof -
      have e: "a + b - 1 = k * b + (b - 1)"
        using True b by (simp add: akr)
      have l: "b - 1 < b"
        using b by simp
      show ?thesis
        unfolding e by (rule div_add_small [OF l])
    qed
    ultimately show ?thesis
      by (simp add: cq)
  next
    case False
    then have r1: "1 \<le> r" by simp
    define m where "m = round_half_even (a * S) b"
    have aS: "a * S = (k * S) * b + r * S"
      by (simp add: akr algebra_simps)
    have fdiv: "(a * S) div b = k * S + (r * S) div b"
      using b by (simp add: aS)
    have fmod: "(a * S) mod b = (r * S) mod b"
      by (simp add: aS)
    have "r * S < b * S"
      using rb S0 by simp
    then have rsd: "(r * S) div b < S"
      using b by (simp add: less_mult_imp_div_less mult.commute)
    have m_hi: "m \<le> k * S + S"
      using round_half_even_bounds [OF b, of "a * S"] fdiv rsd by (simp add: m_def)
    have m_lo: "k * S < m"
    proof (cases "(r * S) div b = 0")
      case True
      then have "r * S < b"
        using b by (simp add: div_eq_0_iff)
      then have "(a * S) mod b = r * S"
        by (simp add: fmod)
      moreover have "b < 2 * (r * S)"
      proof -
        have "1 * S \<le> r * S"
          using r1 by (rule mult_le_mono1)
        then show ?thesis
          using b2S by linarith
      qed
      ultimately have "m = (a * S) div b + 1"
        unfolding m_def by (simp add: round_half_even_up)
      then show ?thesis
        by (simp add: fdiv)
    next
      case False
      then have "k * S < (a * S) div b"
        by (simp add: fdiv)
      then show ?thesis
        using round_half_even_bounds [OF b, of "a * S"] by (simp add: m_def)
    qed
    have "(m + S - 1) div S = k + 1"
    proof -
      define d where "d = m - k * S"
      have d: "m = k * S + d" "1 \<le> d" "d \<le> S"
        using m_lo m_hi by (simp_all add: d_def)
      have e: "m + S - 1 = (k + 1) * S + (d - 1)"
        using d by (simp add: algebra_simps)
      have l: "d - 1 < S"
        using d by simp
      show ?thesis
        unfolding e by (rule div_add_small [OF l])
    qed
    moreover have "(a + b - 1) div b = k + 1"
    proof -
      have e: "a + b - 1 = (k + 1) * b + (r - 1)"
        using r1 by (simp add: akr algebra_simps)
      have l: "r - 1 < b"
        using rb by simp
      show ?thesis
        unfolding e by (rule div_add_small [OF l])
    qed
    ultimately show ?thesis
      by (simp add: cq m_def)
  qed
qed

lemma nat_ceil_div:
  assumes "0 < b"
  shows "(a + b - 1) div b = (if a mod b = 0 then a div b else a div b + (1::nat))"
proof (cases "a mod b = 0")
  case True
  have e: "a + b - 1 = (a div b) * b + (b - 1)"
    using True assms by (simp add: mod_eq_0_iff_dvd)
  have l: "b - 1 < b"
    using assms by simp
  show ?thesis
    unfolding e using True div_add_small [OF l] by simp
next
  case False
  define k where "k = a div b"
  define r where "r = a mod b"
  have akr: "a = k * b + r"
    by (simp add: k_def r_def)
  have r1: "1 \<le> r"
    using False by (simp add: r_def)
  have e: "a + b - 1 = (k + 1) * b + (r - 1)"
    using r1 by (simp add: akr algebra_simps)
  have l: "r - 1 < b"
    using assms by (simp add: r_def less_imp_diff_less)
  have "(a + b - 1) div b = k + 1"
    unfolding e by (rule div_add_small [OF l])
  then show ?thesis
    using False by (simp add: k_def)
qed

lemma ceiling_nat_div:
  assumes "0 < b"
  shows "\<lceil>real a / real b\<rceil> = int ((a + b - 1) div b)"
proof -
  have "\<lceil>real a / real b\<rceil> = - ((- int a) div int b)"
    using ceiling_divide_eq_div [of "int a" "int b", where ?'a = real] by simp
  also have "\<dots> = (if int a mod int b = 0 then int a div int b else int a div int b + 1)"
    using assms by (simp add: zdiv_zminus1_eq_if)
  also have "\<dots> = int (if a mod b = 0 then a div b else a div b + 1)"
  proof -
    have mm: "int a mod int b = int (a mod b)"
      by (simp add: of_nat_mod)
    have dd: "int a div int b = int (a div b)"
      by (simp add: of_nat_div)
    show ?thesis
      unfolding mm dd by simp
  qed
  finally show ?thesis
    by (simp only: nat_ceil_div [OF assms])
qed

lemma to_double_safe: "n < 2 ^ 53 \<Longrightarrow> to_double n = Fin (int n)"
proof -
  assume "n < 2 ^ 53"
  then have "bit_length n \<le> 53"
    by (rule bit_length_le)
  then show ?thesis
    by (simp add: to_double_def Let_def)
qed

lemma math_ceil_div_ceiling:
  assumes b: "0 < b" and a53: "a < 2 ^ 53" and b53: "b < 2 ^ 53"
  shows "math_ceil_div a b = Fin \<lceil>real a / real b\<rceil>"
proof (cases "a = 0")
  case True
  have "math_ceil_div a b = Fin 0"
    unfolding math_ceil_div_def to_double_safe [OF b53] to_double_safe [OF a53]
    using True b by simp
  then show ?thesis
    using True by simp
next
  case False
  have m: "math_ceil_div a b = Fin (int (ceil_quotient a b))"
    unfolding math_ceil_div_def to_double_safe [OF b53] to_double_safe [OF a53]
    using b False by simp
  show ?thesis
  proof (cases "a < b")
    case True
    then have "(a + b - 1) div b = 1"
      using False nat_ceil_div [OF b, of a] by simp
    then show ?thesis
      using True by (simp add: m ceil_quotient_def ceiling_nat_div [OF b])
  next
    case False
    then show ?thesis
      using ceil_quotient_exact [OF b _ a53] by (simp add: m ceiling_nat_div [OF b])
  qed
qed

lemma math_ceil_div_example: "math_ceil_div 95 10 = Fin 10"
  by (simp add: math_ceil_div_def to_double_def ceil_quotient_def round_half_even_def
      bit_length.simps Let_def)

lemma math_ceil_div_one_page: "math_ceil_div 5 10 = Fin 1"
  by (simp add: math_ceil_div_def to_double_def ceil_quotient_def round_half_even_def
      bit_length.simps Let_def)

lemma math_ceil_div_rounded: "math_ceil_div 13510798882111492 3 = Fin 4503599627370497"
  by (simp add: math_ceil_div_def to_double_def ceil_quotient_def round_half_even_def
      bit_length.simps Let_def)

lemma safe_reply_bounds:
  "safe_reply r \<Longrightarrow> total r < 2 ^ 53 \<and> per_page r < 2 ^ 53"
  by (simp add: safe_reply_def safe_integer_def)

text \<open>
  C6, as the code has it. After a successful article load whose counts are safe
  integers and whose page number is one two pages up and down, \<open>totalPages\<close> is the
  ceiling of \<open>total / per_page\<close>. The pagination bar shows
  at most five page indices, each within two of the current page and within 1 and
  \<open>totalPages\<close>. With more than one page they are exactly the five indices centred
  on the current page, clamped to that range; with one page or none the bar is
  emptied and shows no index. With 95 articles, 10 per page, on page 5: 10 pages, and
  the window 3, 4, 5, 6, 7.
\<close>

theorem loadArticles_totalPages_and_window:
  "safe_reply r \<Longrightarrow>
   totalPages (loadArticles_resume (Success r) s) = math_ceil_div (total r) (per_page r)
   \<and> (0 < per_page r \<longrightarrow>
        totalPages (loadArticles_resume (Success r) s) = Fin \<lceil>real (total r) / real (per_page r)\<rceil>)
   \<and> currentPage (loadArticles_resume (Success r) s) = page r
   \<and> length (visible_window (loadArticles_resume (Success r) s)) \<le> 5
   \<and> (\<forall>i \<in> set (visible_window (loadArticles_resume (Success r) s)).
        1 \<le> i \<and> le_jsnum i (totalPages (loadArticles_resume (Success r) s))
        \<and> page r - 2 \<le> i \<and> i \<le> page r + 2)
   \<and> (pagination s \<noteq> None \<and> \<not> jsnum_le (totalPages (loadArticles_resume (Success r) s)) 1 \<longrightarrow>
        visible_window (loadArticles_resume (Success r) s) =
          spec_window (page r) (totalPages (loadArticles_resume (Success r) s)))
   \<and> (jsnum_le (totalPages (loadArticles_resume (Success r) s)) 1 \<longrightarrow>
        visible_window (loadArticles_resume (Success r) s) = []
        \<and> (pagination s \<noteq> None \<longrightarrow> pagination (loadArticles_resume (Success r) s) = Some []))
   \<and> (pagination s \<noteq> None \<and> total r = 95 \<and> per_page r = 10 \<and> page r = 5 \<longrightarrow>
        totalPages (loadArticles_resume (Success r) s) = Fin 10
        \<and> visible_window (loadArticles_resume (Success r) s) = [3, 4, 5, 6, 7])"
proof -
  assume safe: "safe_reply r"
  let ?s' = "loadArticles_resume (Success r) s"
  let ?tp = "math_ceil_div (total r) (per_page r)"
  have tp: "totalPages ?s' = ?tp" and cp: "currentPage ?s' = page r"
    by (simp_all add: loadArticles_resume_Success)
  have ceil: "0 < per_page r \<longrightarrow> totalPages ?s' = Fin \<lceil>real (total r) / real (per_page r)\<rceil>"
    using safe_reply_bounds [OF safe] by (simp add: tp math_ceil_div_ceiling)
  have win: "visible_window ?s' =
      (if pagination s = None \<or> jsnum_le ?tp 1 then [] else spec_window (page r) ?tp)"
    by (rule loadArticles_resume_Success)
  have len: "length (visible_window ?s') \<le> 5"
    by (simp add: win spec_window_length)
  have mem: "\<forall>i \<in> set (visible_window ?s').
      1 \<le> i \<and> le_jsnum i (totalPages ?s') \<and> page r - 2 \<le> i \<and> i \<le> page r + 2"
    using spec_window_set [of _ "page r" ?tp] by (auto simp: win tp)
  have centred: "pagination s \<noteq> None \<and> \<not> jsnum_le (totalPages ?s') 1 \<longrightarrow>
      visible_window ?s' = spec_window (page r) (totalPages ?s')"
    by (simp add: win tp)
  have emptied: "jsnum_le (totalPages ?s') 1 \<longrightarrow>
      visible_window ?s' = []
      \<and> (pagination s \<noteq> None \<longrightarrow> pagination ?s' = Some [])"
    by (auto simp: win tp loadArticles_resume_emptied)
  have ex: "pagination s \<noteq> None \<and> total r = 95 \<and> per_page r = 10 \<and> page r = 5 \<longrightarrow>
      totalPages ?s' = Fin 10 \<and> visible_window ?s' = [3, 4, 5, 6, 7]"
    by (auto simp: tp win math_ceil_div_example spec_window_example jsnum_le_def)
  show ?thesis
    using tp ceil cp len mem centred emptied ex by blast
qed

theorem loadArticles_totalPages_and_window_witness:
  "safe_reply sample_page \<and> safe_reply one_page
   \<and> (0::nat) < per_page sample_page \<and> pagination initial \<noteq> None
   \<and> total sample_page = 95 \<and> per_page sample_page = 10 \<and> page sample_page = 5
   \<and> \<not> jsnum_le (totalPages (loadArticles_resume (Success sample_page) initial)) 1
   \<and> totalPages (loadArticles_resume (Success sample_page) initial) = Fin 10
   \<and> \<lceil>real (total sample_page) / real (per_page sample_page)\<rceil> = 10
   \<and> visible_window (loadArticles_resume (Success sample_page) initial) = [3, 4, 5, 6, 7]
   \<and> spec_window 5 (Fin 10) = [3, 4, 5, 6, 7]
   \<and> 3 \<in> set (visible_window (loadArticles_resume (Success sample_page) initial))
   \<and> jsnum_le (totalPages (loadArticles_resume (Success one_page) initial)) 1
   \<and> visible_window (loadArticles_resume (Success one_page) initial) = []
   \<and> pagination (loadArticles_resume (Success one_page) initial) = Some []"
proof -
  have i: "pagination initial \<noteq> None"
    by (simp add: initial_def)
  have p: "total sample_page = 95" "per_page sample_page = 10" "page sample_page = 5"
    "total one_page = 5" "per_page one_page = 10" "page one_page = 1"
    by (simp_all add: sample_page_def one_page_def)
  have safe: "safe_reply sample_page" "safe_reply one_page"
    by (simp_all add: safe_reply_def safe_integer_def p)
  show ?thesis
    using loadArticles_totalPages_and_window [OF safe(1), of initial]
      loadArticles_totalPages_and_window [OF safe(2), of initial]
    by (simp add: i p safe math_ceil_div_example math_ceil_div_one_page spec_window_example
        jsnum_le_def)
qed

text \<open>
  C6 as stated fails twice. With 5 articles at 10 per page there is one page, the bar
  is emptied, and the clamped window would be page 1. And beyond the safe integers
  the quotient is rounded before the ceiling is taken: 13510798882111492 articles at
  3 per page give one page less than the ceiling.
\<close>

theorem one_page_and_rounding_counterexample:
  "totalPages (loadArticles_resume (Success one_page) initial) = Fin 1
   \<and> currentPage (loadArticles_resume (Success one_page) initial) = 1
   \<and> visible_window (loadArticles_resume (Success one_page) initial) = []
   \<and> spec_window 1 (Fin 1) = [1]
   \<and> math_ceil_div 13510798882111492 3 = Fin 4503599627370497
   \<and> \<lceil>real (13510798882111492::nat) / real (3::nat)\<rceil> = 4503599627370498"
proof -
  have p: "total one_page = 5" "per_page one_page = 10" "page one_page = 1"
    by (simp_all add: one_page_def)
  have a: "totalPages (loadArticles_resume (Success one_page) initial) = Fin 1"
    "currentPage (loadArticles_resume (Success one_page) initial) = 1"
    "visible_window (loadArticles_resume (Success one_page) initial) = []"
    by (simp_all add: loadArticles_resume_Success p math_ceil_div_one_page jsnum_le_def)
  have b: "spec_window 1 (Fin 1) = [1]"
    by (simp add: spec_window_def le_jsnum_def upto.simps)
  have c: "\<lceil>real (13510798882111492::nat) / real (3::nat)\<rceil> = 4503599627370498"
    using ceiling_nat_div [of 3 13510798882111492] by simp
  show ?thesis
    using a b c math_ceil_div_rounded by simp
qed

section \<open>File listings\<close>

lemma set_insert_sorted: "set (insert_sorted c x ys) = insert x (set ys)"
  by (induction ys) auto

lemma mset_insert_sorted: "mset (insert_sorted c x ys) = add_mset x (mset ys)"
  by (induction ys) simp_all

lemma mset_array_sort: "mset (array_sort c xs) = mset xs"
  by (induction xs) (simp_all add: array_sort_def mset_insert_sorted)

lemma set_array_sort: "set (array_sort c xs) = set xs"
  using mset_array_sort [of c xs] by (metis set_mset_mset)

lemma not_older_iff:
  "dated a \<Longrightarrow> dated b \<Longrightarrow> not_older a b = (sort_compare (by_modified a b) \<le> 0)"
  by (auto simp: dated_def not_older_def by_modified_def sort_compare_def)

lemma not_older_trans: "not_older a b \<Longrightarrow> not_older b c \<Longrightarrow> not_older a c"
  by (auto simp: not_older_def split: option.splits)

lemma not_older_total: "dated a \<Longrightarrow> dated b \<Longrightarrow> \<not> not_older a b \<Longrightarrow> not_older b a"
  by (auto simp: dated_def not_older_def)

lemma newest_first_insert:
  "dated x \<Longrightarrow> \<forall>y \<in> set ys. dated y \<Longrightarrow> newest_first ys \<Longrightarrow>
   newest_first (insert_sorted by_modified x ys)"
proof (induction ys)
  case Nil
  then show ?case by (simp add: newest_first_def)
next
  case (Cons y ys)
  show ?case
  proof (cases "sort_compare (by_modified x y) \<le> 0")
    case True
    then have xy: "not_older x y"
      using Cons.prems by (simp add: not_older_iff)
    then have "\<forall>z \<in> set ys. not_older x z"
      using Cons.prems(3) not_older_trans [OF xy] by (auto simp: newest_first_def)
    then show ?thesis
      using True xy Cons.prems(3) by (simp add: newest_first_def)
  next
    case False
    then have yx: "not_older y x"
      using Cons.prems not_older_iff [of x y] not_older_total [of x y] by simp
    have "newest_first (insert_sorted by_modified x ys)"
      using Cons by (simp add: newest_first_def)
    then show ?thesis
      using False yx Cons.prems(3) by (auto simp: newest_first_def set_insert_sorted)
  qed
qed

lemma newest_first_array_sort:
  "\<forall>f \<in> set xs. dated f \<Longrightarrow> newest_first (array_sort by_modified xs)"
proof (induction xs)
  case Nil
  show ?case by (simp add: array_sort_def newest_first_def)
next
  case (Cons x xs)
  then have "newest_first (array_sort by_modified xs)" by simp
  moreover have "\<forall>y \<in> set (array_sort by_modified xs). dated y"
    using Cons.prems by (simp add: set_array_sort)
  ultimately have "newest_first (insert_sorted by_modified x (array_sort by_modified xs))"
    using Cons.prems by (simp add: newest_first_insert)
  then show ?case
    by (simp add: array_sort_def)
qed

lemma item_file_render: "map item_file (map (render_item opts) fs) = fs"
  by (induction fs) (simp_all add: render_item_def)

lemma newest_first_unique:
  assumes "newest_first xs" "newest_first ys" "mset xs = mset ys" "\<forall>f \<in> set xs. dated f"
  shows "map modified xs = map modified ys"
proof -
  have dy: "\<forall>f \<in> set ys. dated f"
    using assms(3,4) by (metis set_mset_mset)
  have le: "not_older a b \<Longrightarrow> instant b \<le> instant a" for a b
    by (auto simp: not_older_def instant_def split: option.splits)
  have "sorted_wrt (\<lambda>a b. instant b \<le> instant a) xs" "sorted_wrt (\<lambda>a b. instant b \<le> instant a) ys"
    using assms(1,2) le by (auto simp: newest_first_def intro: sorted_wrt_mono_rel)
  then have "sorted (rev (map instant xs))" "sorted (rev (map instant ys))"
    by (simp_all add: sorted_wrt_rev sorted_wrt_map flip: rev_map)
  moreover have "mset (rev (map instant xs)) = mset (rev (map instant ys))"
    using assms(3) by (metis mset_map mset_rev)
  ultimately have "rev (map instant xs) = rev (map instant ys)"
    by (metis properties_for_sort)
  then have eq: "map instant xs = map instant ys"
    by simp
  have some: "\<forall>f \<in> set zs. dated f \<Longrightarrow> map modified zs = map (Some \<circ> instant) zs" for zs
    by (induction zs) (auto simp: dated_def instant_def)
  have "map modified xs = map Some (map instant xs)"
    using some [OF assms(4)] by simp
  also have "\<dots> = map Some (map instant ys)"
    by (simp only: eq)
  also have "\<dots> = map modified ys"
    using some [OF dy] by simp
  finally show ?thesis .
qed

text \<open>
  C10, as the code has it. A non-empty file listing all of whose dates are valid is
  rendered as one item per file, most recently modified first, whatever order the
  server sent the files in: the items are a rearrangement of the files served, and
  any other order of the same files shows the same sequence of modification times.
\<close>

theorem renderFileList_newest_first:
  "files \<noteq> [] \<Longrightarrow> \<forall>f \<in> set files. dated f \<Longrightarrow>
   (\<exists>items. renderFileList (Some files) opts = FileList items
      \<and> map item_file items = array_sort by_modified files
      \<and> newest_first (map item_file items)
      \<and> mset (map item_file items) = mset files
      \<and> length items = length files
      \<and> (\<forall>served. mset served = mset files \<longrightarrow>
           (\<exists>items'. renderFileList (Some served) opts = FileList items'
              \<and> map (modified \<circ> item_file) items' = map (modified \<circ> item_file) items)))"
proof -
  assume ne: "files \<noteq> []" and dated: "\<forall>f \<in> set files. dated f"
  let ?items = "map (render_item opts) (array_sort by_modified files)"
  have r: "renderFileList (Some files) opts = FileList ?items"
    using ne by (simp add: renderFileList_def)
  have f: "map item_file ?items = array_sort by_modified files"
    by (rule item_file_render)
  have len: "length ?items = length files"
    using mset_array_sort [of by_modified files] by (metis length_map size_mset)
  have other: "\<exists>items'. renderFileList (Some served) opts = FileList items'
      \<and> map (modified \<circ> item_file) items' = map (modified \<circ> item_file) ?items"
    if m: "mset served = mset files" for served
  proof -
    have "served \<noteq> []"
      using m ne by auto
    then have r': "renderFileList (Some served) opts =
        FileList (map (render_item opts) (array_sort by_modified served))"
      by (simp add: renderFileList_def)
    have ds: "\<forall>f \<in> set served. dated f"
      using m dated by (metis set_mset_mset)
    have "map modified (array_sort by_modified served) = map modified (array_sort by_modified files)"
      by (rule newest_first_unique)
        (simp_all add: newest_first_array_sort ds dated mset_array_sort m set_array_sort)
    then have "map (modified \<circ> item_file) (map (render_item opts) (array_sort by_modified served)) =
        map (modified \<circ> item_file) ?items"
      by (simp add: item_file_render map_map [symmetric] del: map_map)
    then show ?thesis
      using r' by blast
  qed
  have nf: "newest_first (map item_file ?items)"
    unfolding f using dated by (rule newest_first_array_sort)
  have ms: "mset (map item_file ?items) = mset files"
    unfolding f by (rule mset_array_sort)
  show ?thesis
    using r f nf ms len other by blast
qed

theorem renderFileList_newest_first_witness:
  "sample_files \<noteq> [] \<and> list_all dated sample_files
   \<and> map modified sample_files = [Some 1000, Some 3000, Some 2000]
   \<and> (\<exists>items. exportFilesList (loadExportFiles_resume (Success (Some sample_files)) initial)
          = Some (FileList items)
        \<and> map (modified \<circ> item_file) items = [Some 3000, Some 2000, Some 1000]
        \<and> newest_first (map item_file items))
   \<and> mset (rev sample_files) = mset sample_files
   \<and> (\<exists>items'. exportFilesList (loadExportFiles_resume (Success (Some (rev sample_files))) initial)
          = Some (FileList items')
        \<and> map (modified \<circ> item_file) items' = [Some 3000, Some 2000, Some 1000])"
proof -
  have ne: "sample_files \<noteq> []"
    by (simp add: sample_files_def)
  have da: "\<forall>f \<in> set sample_files. dated f"
    by (simp add: sample_files_def dated_def)
  have srt: "map modified (array_sort by_modified sample_files) = [Some 3000, Some 2000, Some 1000]"
    by (simp add: sample_files_def array_sort_def by_modified_def sort_compare_def)
  obtain items where
    r: "renderFileList (Some sample_files) export_options = FileList items" and
    f: "map item_file items = array_sort by_modified sample_files" and
    n: "newest_first (map item_file items)" and
    o: "\<forall>served. mset served = mset sample_files \<longrightarrow>
          (\<exists>items'. renderFileList (Some served) export_options = FileList items'
             \<and> map (modified \<circ> item_file) items' = map (modified \<circ> item_file) items)"
    using renderFileList_newest_first [OF ne da, of export_options] by blast
  have m: "map (modified \<circ> item_file) items = [Some 3000, Some 2000, Some 1000]"
    using srt f by (simp add: map_map [symmetric] del: map_map)
  have "mset (rev sample_files) = mset sample_files"
    by simp
  with o m obtain items' where
    "renderFileList (Some (rev sample_files)) export_options = FileList items'"
    "map (modified \<circ> item_file) items' = [Some 3000, Some 2000, Some 1000]"
    by metis
  then show ?thesis
    using ne r n m
    by (simp add: loadExportFiles_resume_def loadFiles_resume_def sample_files_def dated_def)
qed

text \<open>
  C10 as stated fails when a date cannot be read: the comparator is \<open>NaN\<close> against that
  file, the three files stay in the order served, and the most recently modified one
  is shown last.
\<close>

theorem undated_file_counterexample:
  "undated_files \<noteq> []
   \<and> map modified undated_files = [Some 1000, None, Some 3000]
   \<and> renderFileList (Some undated_files) export_options =
       FileList (map (render_item export_options) undated_files)
   \<and> exportFilesList (loadExportFiles_resume (Success (Some undated_files)) initial) =
       Some (FileList (map (render_item export_options) undated_files))
   \<and> \<not> newest_first undated_files"
  by (simp add: undated_files_def renderFileList_def array_sort_def by_modified_def
      sort_compare_def newest_first_def not_older_def loadExportFiles_resume_def
      loadFiles_resume_def)

end
